theory Spec2Isabelle
  imports Main "HOL-Library.Sublist"
begin

section \<open>Python strings\<close>

text \<open>
  The build script is Python 2 (\<^verbatim>\<open>#!/usr/bin/env python2\<close>): a \<^verbatim>\<open>str\<close> is a byte
  string, modelled as \<^typ>\<open>string\<close>. The string methods the script calls are modelled
  below as the Python 2 library defines them.
\<close>

definition is_space :: "char \<Rightarrow> bool" where
  \<comment> \<open>the characters \<^verbatim>\<open>str.strip()\<close> removes: space, \<^verbatim>\<open>\t \n \x0b \x0c \r\<close>\<close>
  "is_space c \<longleftrightarrow>
     c = CHR '' '' \<or> c = CHR 0x09 \<or> c = CHR 0x0A \<or> c = CHR 0x0B \<or> c = CHR 0x0C \<or> c = CHR 0x0D"

definition strip :: "string \<Rightarrow> string" where
  \<comment> \<open>\<^verbatim>\<open>s.strip()\<close>\<close>
  "strip s = rev (dropWhile is_space (rev (dropWhile is_space s)))"

definition basename :: "string \<Rightarrow> string" where
  \<comment> \<open>\<^verbatim>\<open>os.path.basename(p)\<close> of posixpath: \<^verbatim>\<open>p[p.rfind('/') + 1:]\<close>\<close>
  "basename p = rev (takeWhile (\<lambda>c. c \<noteq> CHR ''/'') (rev p))"

definition startswith :: "string \<Rightarrow> string \<Rightarrow> bool" where
  \<comment> \<open>\<^verbatim>\<open>s.startswith(p)\<close>\<close>
  "startswith s p \<longleftrightarrow> prefix p s"

fun find_str :: "string \<Rightarrow> string \<Rightarrow> int" where
  \<comment> \<open>\<^verbatim>\<open>x.find(y)\<close>: the lowest index at which \<open>y\<close> occurs in \<open>x\<close>, or \<open>-1\<close>\<close>
  "find_str [] y = (if y = [] then 0 else - 1)"
| "find_str (c # cs) y =
     (if prefix y (c # cs) then 0
      else (let i = find_str cs y in if i = - 1 then - 1 else i + 1))"

definition contains :: "string \<Rightarrow> string \<Rightarrow> bool" where
  \<comment> \<open>\<^verbatim>\<open>y in x\<close> for strings\<close>
  "contains x y \<longleftrightarrow> find_str x y \<noteq> - 1"

fun split_str :: "string \<Rightarrow> string \<Rightarrow> string list" where
  \<comment> \<open>\<^verbatim>\<open>s.split(sep)\<close> for a non-empty separator, as every separator of the script is
      (Python raises ValueError on an empty one)\<close>
  "split_str [] sep = [[]]"
| "split_str (c # cs) sep =
     (if sep \<noteq> [] \<and> prefix sep (c # cs)
      then [] # split_str (drop (length sep) (c # cs)) sep
      else (case split_str cs sep of
              [] \<Rightarrow> [[c]]
            | t # ts \<Rightarrow> (c # t) # ts))"

section \<open>Canonical library names\<close>

definition chop_at :: "string \<Rightarrow> string \<Rightarrow> string" where
  \<comment> \<open>the local function of \<^verbatim>\<open>get_lib_short_name\<close>\<close>
  "chop_at x y = (let idx = find_str x y in if idx \<noteq> - 1 then take (nat idx) x else x)"

definition get_lib_short_name :: "string \<Rightarrow> string" where
  "get_lib_short_name name0 =
     (let name = strip name0;
          name = basename name;
          name = (if startswith name ''-l'' then drop 2 name else name);
          name = (if startswith name ''lib'' then drop 3 name else name);
          name = chop_at name ''.so'';
          name = chop_at name ''.dylib'';
          name = chop_at name ''.a''
      in name)"


section \<open>Interpreter state, the outside world and exceptions\<close>

text \<open>
  The script raises no exception of its own and catches only \<^verbatim>\<open>ImportError\<close> (and, at
  module level, the failure of the \<^verbatim>\<open>brew\<close> call), so every exception of the interpreter
  or of a library call leaves the function in which it occurs.
\<close>

datatype error =
    OSError \<comment> \<open>\<^verbatim>\<open>subprocess\<close> cannot start the program\<close>
  | IndexError \<comment> \<open>subscript out of range\<close>
  | TypeError \<comment> \<open>an unhashable object added to a set\<close>
  | AttributeError \<comment> \<open>\<^verbatim>\<open>os.path.basename(None)\<close>: \<^verbatim>\<open>None\<close> has no \<^verbatim>\<open>rfind\<close>\<close>

type_synonym environment = "string \<rightharpoonup> string"

datatype dict_ref =
    Environ \<comment> \<open>the object \<^verbatim>\<open>os.environ\<close>\<close>
  | Copy nat \<comment> \<open>the \<open>n\<close>-th dict made by \<^verbatim>\<open>copy()\<close>\<close>

datatype call =
    Subprocess "string list" environment \<comment> \<open>arguments and the environment handed to the child\<close>
  | FindLibrary string
  | Import string

record pystate =
  os_environ :: environment
  copies :: "environment list"
  sys_path :: "string list"
  calls :: "call list"

record world =
  launch :: "string list \<Rightarrow> environment \<Rightarrow> (int \<times> string) option"
    \<comment> \<open>starting a program: \<open>None\<close> when it cannot be started, else exit code and stdout\<close>
  find_library :: "string \<Rightarrow> string option" \<comment> \<open>\<^verbatim>\<open>ctypes.util.find_library\<close>\<close>
  importable :: "string \<Rightarrow> string list \<Rightarrow> bool"
    \<comment> \<open>whether the module is found on the given \<^verbatim>\<open>sys.path\<close>\<close>
  platform :: string \<comment> \<open>\<^verbatim>\<open>sys.platform\<close>\<close>
  py_ver_X :: nat \<comment> \<open>\<^verbatim>\<open>sys.version_info.major\<close>\<close>
  py_ver_Y :: nat \<comment> \<open>\<^verbatim>\<open>sys.version_info.minor\<close>\<close>
  homebrew_site_pkgs :: "string option" \<comment> \<open>the module-level global of that name\<close>

type_synonym 'a py = "pystate \<Rightarrow> (error + 'a) \<times> pystate"

definition py_return :: "'a \<Rightarrow> 'a py" where
  "py_return v s = (Inr v, s)"

definition py_raise :: "error \<Rightarrow> 'a py" where
  "py_raise e s = (Inl e, s)"

definition py_bind :: "'a py \<Rightarrow> ('a \<Rightarrow> 'b py) \<Rightarrow> 'b py" where
  "py_bind m f s = (case m s of (Inl e, s') \<Rightarrow> (Inl e, s') | (Inr v, s') \<Rightarrow> f v s')"

definition py_pure :: "error + 'a \<Rightarrow> 'a py" where
  \<comment> \<open>a computation that touches neither the state nor the world\<close>
  "py_pure r s = (r, s)"

fun deref :: "pystate \<Rightarrow> dict_ref \<Rightarrow> environment" where
  "deref s Environ = os_environ s"
| "deref s (Copy i) = (if i < length (copies s) then copies s ! i else Map.empty)"

definition dict_copy :: "dict_ref \<Rightarrow> dict_ref py" where
  \<comment> \<open>\<^verbatim>\<open>d.copy()\<close>: a new object with the same items\<close>
  "dict_copy r s = (Inr (Copy (length (copies s))), s\<lparr>copies := copies s @ [deref s r]\<rparr>)"

definition dict_get :: "dict_ref \<Rightarrow> string \<Rightarrow> string option py" where
  "dict_get r k s = (Inr (deref s r k), s)"

definition dict_set :: "dict_ref \<Rightarrow> string \<Rightarrow> string \<Rightarrow> unit py" where
  \<comment> \<open>\<^verbatim>\<open>d[k] = v\<close>: updates the object the reference points to\<close>
  "dict_set r k v s =
     (Inr (),
      case r of
        Environ \<Rightarrow> s\<lparr>os_environ := (os_environ s)(k \<mapsto> v)\<rparr>
      | Copy i \<Rightarrow> s\<lparr>copies := (copies s)[i := (deref s r)(k \<mapsto> v)]\<rparr>)"

definition subprocess :: "world \<Rightarrow> string list \<Rightarrow> dict_ref \<Rightarrow> (int \<times> string) py" where
  \<comment> \<open>\<^verbatim>\<open>subprocess.call\<close> / \<^verbatim>\<open>subprocess.Popen\<close>: the child gets the items of the dict
      (\<^verbatim>\<open>os.environ\<close> when no \<^verbatim>\<open>env=\<close> is given); a program that cannot be started
      raises \<^verbatim>\<open>OSError\<close>\<close>
  "subprocess w argv env s =
     (let s' = s\<lparr>calls := calls s @ [Subprocess argv (deref s env)]\<rparr>
      in case launch w argv (deref s env) of
           None \<Rightarrow> (Inl OSError, s')
         | Some r \<Rightarrow> (Inr r, s'))"

definition ctypes_find_library :: "world \<Rightarrow> string \<Rightarrow> string option py" where
  "ctypes_find_library w name s = (Inr (find_library w name), s\<lparr>calls := calls s @ [FindLibrary name]\<rparr>)"

definition try_import :: "world \<Rightarrow> string \<Rightarrow> bool py" where
  \<comment> \<open>\<^verbatim>\<open>try: import m / except ImportError\<close>: whether the import succeeded\<close>
  "try_import w m s = (Inr (importable w m (sys_path s)), s\<lparr>calls := calls s @ [Import m]\<rparr>)"

definition sys_path_insert :: "nat \<Rightarrow> string \<Rightarrow> unit py" where
  \<comment> \<open>\<^verbatim>\<open>sys.path.insert(i, x)\<close>; an index beyond the end appends\<close>
  "sys_path_insert i x s = (Inr (), s\<lparr>sys_path := take i (sys_path s) @ x # drop i (sys_path s)\<rparr>)"

section \<open>The functions of the build script\<close>

definition local_pkg_config_paths :: string where
  "local_pkg_config_paths =
     ''/usr/local/lib/pkgconfig:'' @ ''/usr/local/pkgconfig:'' @ ''/usr/share/pkgconfig''"

definition get_extra_envs :: "dict_ref py" where
  "get_extra_envs =
     py_bind (dict_copy Environ) (\<lambda>env.
     py_bind (dict_get env ''PKG_CONFIG_PATH'') (\<lambda>v.
     py_bind (case v of
                Some pkg_config_path \<Rightarrow>
                  dict_set env ''PKG_CONFIG_PATH'' (pkg_config_path @ '':'' @ local_pkg_config_paths)
              | None \<Rightarrow> dict_set env ''PKG_CONFIG_PATH'' local_pkg_config_paths) (\<lambda>_.
     py_return env)))"

definition have_command :: "world \<Rightarrow> string \<Rightarrow> bool py" where
  "have_command w name =
     py_bind (subprocess w [''which'', name] Environ) (\<lambda>(proc, out).
     py_return (proc = 0))"

definition have_library :: "world \<Rightarrow> string \<Rightarrow> bool py" where
  "have_library w name =
     (let short_name = get_lib_short_name name in
      py_bind (ctypes_find_library w short_name) (\<lambda>res.
      if res = None \<or> res = Some [] then
        py_bind get_extra_envs (\<lambda>env.
        py_bind (subprocess w [''pkg-config'', ''--exists'', name] env) (\<lambda>(proc, out).
        py_return (proc = 0)))
      else py_return True))"

definition have_library_object_file :: "world \<Rightarrow> string \<Rightarrow> string \<Rightarrow> bool py" where
  "have_library_object_file w libname name =
     py_bind (have_library w libname) (\<lambda>found.
     if found then
       py_bind get_extra_envs (\<lambda>env.
       py_bind (subprocess w [''pkg-config'', ''--libs'', libname] env) (\<lambda>(proc, res).
       let res = strip res;
           res = split_str res '' '';
           res = map get_lib_short_name res
       in py_return (get_lib_short_name name \<in> set res)))
     else py_return False)"

fun pkg_config_loop :: "string list \<Rightarrow> string list \<Rightarrow> error + string list" where
  \<comment> \<open>the \<^verbatim>\<open>for x in res\<close> loop of \<^verbatim>\<open>pkg_config_res\<close>, with the list \<^verbatim>\<open>lst\<close> built so far\<close>
  "pkg_config_loop [] lst = Inr lst"
| "pkg_config_loop (x # xs) lst =
     (if x = [] then pkg_config_loop xs lst
      else (case strip x of
              [] \<Rightarrow> Inl IndexError
            | c # cs \<Rightarrow>
                (case (if c = CHR ''-'' then cs else c # cs) of
                   [] \<Rightarrow> Inl IndexError
                 | d # ds \<Rightarrow>
                     if d = CHR ''l'' \<or> d = CHR ''L'' \<or> d = CHR ''I''
                     then pkg_config_loop xs (lst @ [ds])
                     else pkg_config_loop xs (lst @ [get_lib_short_name (d # ds)]))))"

definition pkg_config_res :: "world \<Rightarrow> string list \<Rightarrow> string list py" where
  "pkg_config_res w opts =
     py_bind get_extra_envs (\<lambda>env.
     py_bind (subprocess w (''pkg-config'' # opts) env) (\<lambda>(proc, res).
     let res = strip res;
         res = split_str res '' ''
     in py_pure (pkg_config_loop res [])))"

fun installed_path_loop :: "string \<Rightarrow> string list \<Rightarrow> error + string option" where
  \<comment> \<open>the \<^verbatim>\<open>for x in res\<close> loop of \<^verbatim>\<open>get_lib_installed_path\<close>\<close>
  "installed_path_loop libname [] = Inr None"
| "installed_path_loop libname (x # xs) =
     (if startswith x libname then
        (case split_str x ''=>'' of
           y0 # y1 # ys \<Rightarrow> Inr (Some (strip y1))
         | _ \<Rightarrow> Inl IndexError)
      else installed_path_loop libname xs)"

definition installed_path_in :: "string \<Rightarrow> string \<Rightarrow> error + string option" where
  \<comment> \<open>\<^verbatim>\<open>get_lib_installed_path\<close> after the output of \<^verbatim>\<open>ldconfig -p\<close> has been read\<close>
  "installed_path_in res libname =
     (if \<not> contains res libname then Inr None
      else installed_path_loop libname (split_str res [CHR 0x0A, CHR 0x09]))"

definition get_lib_installed_path :: "world \<Rightarrow> string \<Rightarrow> string option py" where
  "get_lib_installed_path w libname =
     py_bind (subprocess w [''ldconfig'', ''-p''] Environ) (\<lambda>(proc, res).
     py_pure (installed_path_in res libname))"

definition get_lib_filename_namespec :: "world \<Rightarrow> string \<Rightarrow> string py" where
  "get_lib_filename_namespec w libname =
     py_bind (get_lib_installed_path w libname) (\<lambda>path.
     case path of
       None \<Rightarrow> py_raise AttributeError
     | Some p \<Rightarrow> py_return ('':'' @ basename p))"


datatype obj =
    Str string
  | NoneObj
  | Other nat \<comment> \<open>a hashable object that is neither a \<^verbatim>\<open>str\<close> nor a \<^verbatim>\<open>list\<close>\<close>
  | Lst "obj list"

fun hashable :: "obj \<Rightarrow> bool" where
  \<comment> \<open>a list cannot be a member of a set\<close>
  "hashable (Lst ys) = False"
| "hashable x = True"

type_synonym iteration = "obj list \<Rightarrow> obj list"
  \<comment> \<open>the order in which the interpreter iterates over a set whose members were added in
      the given order; nothing is known of it but that it yields every member once\<close>

definition set_add :: "obj \<Rightarrow> obj list \<Rightarrow> error + obj list" where
  \<comment> \<open>\<^verbatim>\<open>item_set.add(x)\<close>; the set is represented by the list of its members in the order of
      their first insertion; an unhashable object raises \<^verbatim>\<open>TypeError\<close>\<close>
  "set_add x item_set =
     (if \<not> hashable x then Inl TypeError
      else if x \<in> set item_set then Inr item_set
      else Inr (item_set @ [x]))"

fun add_all :: "obj list \<Rightarrow> obj list \<Rightarrow> error + obj list" where
  \<comment> \<open>\<^verbatim>\<open>for y in x: item_set.add(y)\<close>\<close>
  "add_all [] item_set = Inr item_set"
| "add_all (y # ys) item_set =
     (case set_add y item_set of
        Inl e \<Rightarrow> Inl e
      | Inr item_set' \<Rightarrow> add_all ys item_set')"

fun build_lst_loop :: "obj list \<Rightarrow> obj list \<Rightarrow> error + obj list" where
  \<comment> \<open>\<^verbatim>\<open>for x in items\<close> with its two \<^verbatim>\<open>isinstance\<close> tests\<close>
  "build_lst_loop [] item_set = Inr item_set"
| "build_lst_loop (x # xs) item_set =
     (case x of
        Str v \<Rightarrow>
          (case set_add x item_set of
             Inl e \<Rightarrow> Inl e
           | Inr item_set' \<Rightarrow> build_lst_loop xs item_set')
      | Lst ys \<Rightarrow>
          (case add_all ys item_set of
             Inl e \<Rightarrow> Inl e
           | Inr item_set' \<Rightarrow> build_lst_loop xs item_set')
      | _ \<Rightarrow> build_lst_loop xs item_set)"

definition build_lst :: "iteration \<Rightarrow> obj list \<Rightarrow> error + obj list" where
  \<comment> \<open>the last line is \<^verbatim>\<open>list(item_set)\<close>: the members in the interpreter's order\<close>
  "build_lst order items =
     (case build_lst_loop items [] of
        Inl e \<Rightarrow> Inl e
      | Inr item_set \<Rightarrow> Inr (order item_set))"

definition opt_str :: "string option \<Rightarrow> obj" where
  \<comment> \<open>a variable holding \<^verbatim>\<open>None\<close> or a \<^verbatim>\<open>str\<close>\<close>
  "opt_str v = (case v of None \<Rightarrow> NoneObj | Some x \<Rightarrow> Str x)"

definition str_list :: "string list \<Rightarrow> obj" where
  "str_list xs = Lst (map Str xs)"

definition opt_list :: "string list option \<Rightarrow> obj" where
  \<comment> \<open>a variable holding \<^verbatim>\<open>None\<close> or a list of \<^verbatim>\<open>str\<close>\<close>
  "opt_list v = (case v of None \<Rightarrow> NoneObj | Some xs \<Rightarrow> str_list xs)"

definition py_motion_libraries ::
  "iteration \<Rightarrow> string list option \<Rightarrow> string option \<Rightarrow> error + obj list" where
  \<comment> \<open>\<^verbatim>\<open>libraries=build_lst(cv_libs, py_libs, cl_lib)\<close> of the extension \<^verbatim>\<open>py_motion\<close>\<close>
  "py_motion_libraries order py_libs cl_lib =
     build_lst order [str_list [''opencv_core'', ''opencv_ocl'', ''opencv_imgproc''],
                      opt_list py_libs, opt_str cl_lib]"

definition py_motion_library_dirs ::
  "iteration \<Rightarrow> string list \<Rightarrow> string option \<Rightarrow> error + obj list" where
  \<comment> \<open>\<^verbatim>\<open>library_dirs=build_lst(ldflags, cl_ldflag)\<close> of the extension \<^verbatim>\<open>py_motion\<close>\<close>
  "py_motion_library_dirs order ldflags cl_ldflag =
     build_lst order [str_list ldflags, opt_str cl_ldflag]"

definition digit_char :: "nat \<Rightarrow> char" where
  "digit_char d = char_of (48 + d)"

fun str_of_nat :: "nat \<Rightarrow> string" where
  \<comment> \<open>\<^verbatim>\<open>'{}'.format(n)\<close> for a non-negative integer\<close>
  "str_of_nat n = (if n < 10 then [digit_char n] else str_of_nat (n div 10) @ [digit_char (n mod 10)])"

definition py_ver :: "world \<Rightarrow> string" where
  "py_ver w = str_of_nat (py_ver_X w) @ ''.'' @ str_of_nat (py_ver_Y w)"

type_synonym verdict = "bool \<times> string option"

fun tools_loop :: "world \<Rightarrow> string list \<Rightarrow> verdict option py" where
  \<comment> \<open>\<^verbatim>\<open>for x in tools\<close>: \<open>Some\<close> is the value of a \<^verbatim>\<open>return\<close> inside the loop, \<open>None\<close>
      means that the loop ran to its end\<close>
  "tools_loop w [] = py_return None"
| "tools_loop w (x # xs) =
     py_bind (have_command w x) (\<lambda>ok.
     if \<not> ok then py_return (Some (False, Some (x @ '' is needed to complete the build process'')))
     else tools_loop w xs)"

fun libs_loop :: "world \<Rightarrow> string list \<Rightarrow> verdict option py" where
  "libs_loop w [] = py_return None"
| "libs_loop w (x # xs) =
     py_bind (have_library w x) (\<lambda>ok.
     if \<not> ok
     then py_return (Some (False, Some (x @ '' library is needed to complete the build process'')))
     else libs_loop w xs)"

fun objs_loop :: "world \<Rightarrow> (string \<times> string) list \<Rightarrow> verdict option py" where
  "objs_loop w [] = py_return None"
| "objs_loop w ((x, y) # xs) =
     py_bind (have_library_object_file w x y) (\<lambda>ok.
     if \<not> ok
     then py_return (Some (False, Some (x @ '' library is missing object file '' @ y)))
     else objs_loop w xs)"

definition required_tools :: "world \<Rightarrow> string list" where
  "required_tools w =
     [''pkg-config''] @ (if startswith (platform w) ''linux'' then [''ldconfig''] else [])
       @ [''python'' @ py_ver w @ ''-config'']"

definition required_libs :: "string list" where
  "required_libs = [''opencv'', ''avformat'', ''avcodec'', ''avutil'', ''OpenCL'']"

definition required_objs :: "(string \<times> string) list" where
  "required_objs =
     [(''opencv'', ''libopencv_ocl.so''), (''opencv'', ''libopencv_core.so''),
      (''opencv'', ''libopencv_imgproc.so'')]"

definition import_cv2 :: "world \<Rightarrow> bool py" where
  \<comment> \<open>the end of \<^verbatim>\<open>check_dependencies\<close>: the \<^verbatim>\<open>sys.path\<close> insertions and the import\<close>
  "import_cv2 w =
     py_bind (sys_path_insert 1 (''/usr/local/lib/python'' @ py_ver w @ ''/site-packages'')) (\<lambda>_.
     py_bind (sys_path_insert 2 (''/usr/local/lib/python'' @ py_ver w @ ''/dist-packages'')) (\<lambda>_.
     py_bind (sys_path_insert 3 (''/usr/lib/python'' @ py_ver w @ ''/site-packages'')) (\<lambda>_.
     py_bind (sys_path_insert 4 (''/usr/lib/python'' @ py_ver w @ ''/dist-packages'')) (\<lambda>_.
     py_bind (case homebrew_site_pkgs w of
                Some p \<Rightarrow> sys_path_insert 1 p
              | None \<Rightarrow> py_return ()) (\<lambda>_.
     try_import w ''cv2'')))))"

definition check_dependencies :: "world \<Rightarrow> verdict py" where
  "check_dependencies w =
     (if py_ver_X w \<noteq> 2 then py_return (False, Some (''Python '' @ py_ver w @ '' is not version 2.x''))
      else
        py_bind (tools_loop w (required_tools w)) (\<lambda>r.
        case r of Some v \<Rightarrow> py_return v | None \<Rightarrow>
        py_bind (libs_loop w required_libs) (\<lambda>r.
        case r of Some v \<Rightarrow> py_return v | None \<Rightarrow>
        py_bind (objs_loop w required_objs) (\<lambda>r.
        case r of Some v \<Rightarrow> py_return v | None \<Rightarrow>
        py_bind (import_cv2 w) (\<lambda>ok.
        if ok then py_return (True, None)
        else py_return (False, Some ''opencv built with BUILD_opencv_python=ON required''))))))"

declare str_of_nat.simps [simp del]

section \<open>The specification's wording, for comparison with the code\<close>

fun chop_scan :: "string \<Rightarrow> string \<Rightarrow> string" where
  \<comment> \<open>the part of a string before the first occurrence of \<open>y\<close>, found in one pass\<close>
  "chop_scan y [] = []"
| "chop_scan y (c # cs) = (if prefix y (c # cs) then [] else c # chop_scan y cs)"

definition strip_leading :: "string \<Rightarrow> string \<Rightarrow> string" where
  \<comment> \<open>"strip a leading \<open>p\<close>"\<close>
  "strip_leading p s = (if prefix p s then drop (length p) s else s)"

fun truncate_at_first_match :: "string \<Rightarrow> string" where
  \<comment> \<open>"truncate at the first match of \<^verbatim>\<open>.so\<close>, \<^verbatim>\<open>.dylib\<close> or \<^verbatim>\<open>.a\<close>"\<close>
  "truncate_at_first_match [] = []"
| "truncate_at_first_match (c # cs) =
     (if prefix ''.so'' (c # cs) \<or> prefix ''.dylib'' (c # cs) \<or> prefix ''.a'' (c # cs) then []
      else c # truncate_at_first_match cs)"

definition normalize_as_claimed :: "string \<Rightarrow> string" where
  \<comment> \<open>the three steps the specification gives for NameNormalizer, and nothing else\<close>
  "normalize_as_claimed raw =
     truncate_at_first_match (strip_leading ''lib'' (strip_leading ''-l'' raw))"

definition augmented :: "environment \<Rightarrow> environment" where
  \<comment> \<open>the environment EnvironmentAugmenter is to return for a given ambient one\<close>
  "augmented env =
     env(''PKG_CONFIG_PATH'' \<mapsto>
       (case env ''PKG_CONFIG_PATH'' of
          None \<Rightarrow> local_pkg_config_paths
        | Some v \<Rightarrow> v @ '':'' @ local_pkg_config_paths))"

fun join_paths :: "string list \<Rightarrow> string" where
  \<comment> \<open>directories joined with the path separator \<^verbatim>\<open>:\<close>\<close>
  "join_paths [] = []"
| "join_paths [x] = x"
| "join_paths (x # y # ys) = x @ '':'' @ join_paths (y # ys)"

definition flag_value :: "string \<Rightarrow> string" where
  \<comment> \<open>what the code keeps of one non-empty token of package-config output\<close>
  "flag_value tok =
     (case strip_leading ''-'' (strip tok) of
        [] \<Rightarrow> []
      | d # ds \<Rightarrow>
          if d = CHR ''l'' \<or> d = CHR ''L'' \<or> d = CHR ''I'' then ds
          else get_lib_short_name (d # ds))"

definition flag_value_claimed :: "string \<Rightarrow> string" where
  \<comment> \<open>what the specification says PkgConfigQuery keeps: as above, but the remainder of an
      \<^verbatim>\<open>l\<close> token goes through NameNormalizer\<close>
  "flag_value_claimed tok =
     (case strip_leading ''-'' tok of
        [] \<Rightarrow> []
      | d # ds \<Rightarrow>
          if d = CHR ''l'' then get_lib_short_name ds
          else if d = CHR ''L'' \<or> d = CHR ''I'' then ds
          else get_lib_short_name (d # ds))"

fun whitespace_tokens :: "string \<Rightarrow> string \<Rightarrow> string list" where
  \<comment> \<open>the maximal runs of non-whitespace characters; \<open>cur\<close> is the run being read\<close>
  "whitespace_tokens cur [] = (if cur = [] then [] else [cur])"
| "whitespace_tokens cur (c # cs) =
     (if is_space c
      then (if cur = [] then whitespace_tokens [] cs else cur # whitespace_tokens [] cs)
      else whitespace_tokens (cur @ [c]) cs)"

definition split_whitespace :: "string \<Rightarrow> string list" where
  \<comment> \<open>"split on whitespace", Python's \<^verbatim>\<open>s.split()\<close>\<close>
  "split_whitespace s = whitespace_tokens [] s"

datatype requirement =
    RuntimeMajor
  | Tool string
  | SharedLibrary string
  | ObjectFile string string
  | BindingModule

definition requirements :: "world \<Rightarrow> requirement list" where
  \<comment> \<open>the requirements of DependencyGate in the documented order\<close>
  "requirements w =
     [RuntimeMajor, Tool ''pkg-config'']
     @ (if startswith (platform w) ''linux'' then [Tool ''ldconfig''] else [])
     @ [Tool (''python'' @ py_ver w @ ''-config''),
        SharedLibrary ''opencv'', SharedLibrary ''avformat'', SharedLibrary ''avcodec'',
        SharedLibrary ''avutil'', SharedLibrary ''OpenCL'',
        ObjectFile ''opencv'' ''libopencv_ocl.so'', ObjectFile ''opencv'' ''libopencv_core.so'',
        ObjectFile ''opencv'' ''libopencv_imgproc.so'',
        BindingModule]"

definition locate :: "world \<Rightarrow> string \<Rightarrow> bool py" where
  \<comment> \<open>CommandProbe on the machine: one run of \<^verbatim>\<open>which\<close> in the ambient environment\<close>
  "locate w name s =
     (case launch w [''which'', name] (os_environ s) of
        None \<Rightarrow> Inl OSError
      | Some (code, out) \<Rightarrow> Inr (code = 0),
      s\<lparr>calls := calls s @ [Subprocess [''which'', name] (os_environ s)]\<rparr>)"

definition resolve :: "world \<Rightarrow> string \<Rightarrow> bool py" where
  \<comment> \<open>LibraryResolver.resolve on the machine: the dynamic-library search by canonical name,
      then \<^verbatim>\<open>pkg-config --exists\<close> with the name as given, in a new augmented environment\<close>
  "resolve w name s =
     (if find_library w (get_lib_short_name name) = None \<or>
         find_library w (get_lib_short_name name) = Some []
      then (case launch w [''pkg-config'', ''--exists'', name] (augmented (os_environ s)) of
              None \<Rightarrow> Inl OSError
            | Some (code, out) \<Rightarrow> Inr (code = 0),
            s\<lparr>copies := copies s @ [augmented (os_environ s)],
              calls := calls s @ [FindLibrary (get_lib_short_name name),
                Subprocess [''pkg-config'', ''--exists'', name] (augmented (os_environ s))]\<rparr>)
      else (Inr True, s\<lparr>calls := calls s @ [FindLibrary (get_lib_short_name name)]\<rparr>))"

definition resolve_object_file :: "world \<Rightarrow> string \<Rightarrow> string \<Rightarrow> bool py" where
  \<comment> \<open>LibraryResolver.resolveObjectFile on the machine\<close>
  "resolve_object_file w libname name s =
     (case resolve w libname s of
        (Inl e, s') \<Rightarrow> (Inl e, s')
      | (Inr False, s') \<Rightarrow> (Inr False, s')
      | (Inr True, s') \<Rightarrow>
          (case launch w [''pkg-config'', ''--libs'', libname] (augmented (os_environ s')) of
             None \<Rightarrow> Inl OSError
           | Some (code, res) \<Rightarrow>
               Inr (get_lib_short_name name
                      \<in> set (map get_lib_short_name (split_str (strip res) '' ''))),
           s'\<lparr>copies := copies s' @ [augmented (os_environ s')],
              calls := calls s' @
                [Subprocess [''pkg-config'', ''--libs'', libname] (augmented (os_environ s'))]\<rparr>))"

definition prioritized_path :: "world \<Rightarrow> string list \<Rightarrow> string list" where
  \<comment> \<open>the module search path with the candidate directories put right after its first
      entry: the package manager's site directory, when there is one, and the four
      version-specific directories (on an empty path the first of the four comes first)\<close>
  "prioritized_path w path =
     take 1 path
     @ (case homebrew_site_pkgs w of None \<Rightarrow> [] | Some p \<Rightarrow> if path = [] then [] else [p])
     @ [''/usr/local/lib/python'' @ py_ver w @ ''/site-packages'']
     @ (case homebrew_site_pkgs w of None \<Rightarrow> [] | Some p \<Rightarrow> if path = [] then [p] else [])
     @ [''/usr/local/lib/python'' @ py_ver w @ ''/dist-packages'',
        ''/usr/lib/python'' @ py_ver w @ ''/site-packages'',
        ''/usr/lib/python'' @ py_ver w @ ''/dist-packages'']
     @ drop 1 path"

definition binding_import :: "world \<Rightarrow> bool py" where
  \<comment> \<open>the binding module \<^verbatim>\<open>cv2\<close> is looked for on the prioritized path, which stays in
      place\<close>
  "binding_import w s =
     (Inr (importable w ''cv2'' (prioritized_path w (sys_path s))),
      s\<lparr>sys_path := prioritized_path w (sys_path s), calls := calls s @ [Import ''cv2'']\<rparr>)"

fun probe :: "world \<Rightarrow> requirement \<Rightarrow> bool py" where
  \<comment> \<open>what probing one requirement asks of the machine and leaves in the state\<close>
  "probe w RuntimeMajor = py_return (py_ver_X w = 2)"
| "probe w (Tool x) = locate w x"
| "probe w (SharedLibrary x) = resolve w x"
| "probe w (ObjectFile x y) = resolve_object_file w x y"
| "probe w BindingModule = binding_import w"

fun diagnostic :: "world \<Rightarrow> requirement \<Rightarrow> string" where
  "diagnostic w RuntimeMajor = ''Python '' @ py_ver w @ '' is not version 2.x''"
| "diagnostic w (Tool x) = x @ '' is needed to complete the build process''"
| "diagnostic w (SharedLibrary x) = x @ '' library is needed to complete the build process''"
| "diagnostic w (ObjectFile x y) = x @ '' library is missing object file '' @ y"
| "diagnostic w BindingModule = ''opencv built with BUILD_opencv_python=ON required''"

fun first_failure :: "world \<Rightarrow> requirement list \<Rightarrow> verdict py" where
  \<comment> \<open>probe the requirements one after the other and stop at the first that fails\<close>
  "first_failure w [] = py_return (True, None)"
| "first_failure w (r # rs) =
     py_bind (probe w r) (\<lambda>ok.
     if ok then first_failure w rs else py_return (False, Some (diagnostic w r)))"

fun contribution :: "obj \<Rightarrow> obj set" where
  \<comment> \<open>what one argument of \<^verbatim>\<open>build_lst\<close> is to add to the result\<close>
  "contribution (Str x) = {Str x}"
| "contribution (Lst ys) = set ys"
| "contribution _ = {}"

definition or_else :: "verdict option py \<Rightarrow> verdict py \<Rightarrow> verdict py" where
  \<comment> \<open>a loop that may return, followed by the rest of the function\<close>
  "or_else loop rest =
     py_bind loop (\<lambda>r. case r of Some v \<Rightarrow> py_return v | None \<Rightarrow> rest)"

fun passes :: "world \<Rightarrow> requirement list \<Rightarrow> pystate \<Rightarrow> bool" where
  \<comment> \<open>every requirement is met, each probed in the state the one before left\<close>
  "passes w [] s = True"
| "passes w (r # rs) s =
     (case probe w r s of
        (Inr True, s') \<Rightarrow> passes w rs s'
      | _ \<Rightarrow> False)"

fun argv_of :: "call \<Rightarrow> string list" where
  \<comment> \<open>a call of the trace without the environment\<close>
  "argv_of (Subprocess argv env) = argv"
| "argv_of (FindLibrary n) = [''find_library'', n]"
| "argv_of (Import m) = [''import'', m]"

section \<open>Simulated machines\<close>

definition ldconfig_output :: string where
  "ldconfig_output =
     ''2 libs found'' @ [CHR 0x0A, CHR 0x09]
     @ ''libavcodec.so.54 => /usr/lib/libavcodec.so.54'' @ [CHR 0x0A, CHR 0x09]
     @ ''libOpenCL.so.1 => /usr/lib/libOpenCL.so.1'' @ [CHR 0x0A]"

fun linux_tools :: "string list \<Rightarrow> (int \<times> string) option" where
  \<comment> \<open>the programs of a Linux machine on which every dependency is installed\<close>
  "linux_tools [a, b] =
     (if a = ''which'' then Some (0, ''/usr/bin/'' @ b @ [CHR 0x0A])
      else if a = ''ldconfig'' \<and> b = ''-p'' then Some (0, ldconfig_output)
      else None)"
| "linux_tools [a, b, c] =
     (if a = ''pkg-config'' \<and> b = ''--exists''
      then Some (if c = ''madeup_lib_xyz'' then 1 else 0, [])
      else if a = ''pkg-config'' \<and> b = ''--libs'' \<and> c = ''opencv''
      then Some (0, ''-lopencv_core  -lopencv_ocl -lopencv_imgproc '' @ [CHR 0x0A])
      else if a = ''pkg-config'' \<and> b = ''--libs'' \<and> c = ''OpenCL''
      then Some (0, ''-L/usr/lib -l:libOpenCL.so.1'' @ [CHR 0x0A])
      else if a = ''pkg-config'' \<and> b = ''--cflags'' \<and> c = ''fakepkg''
      then Some (0, ''-I/usr/include/foo -DFOO'' @ [CHR 0x0A])
      else None)"
| "linux_tools argv = None"

definition linux_box :: world where
  "linux_box =
     \<lparr>launch = (\<lambda>argv env. linux_tools argv),
      find_library = (\<lambda>n. if n \<in> set [''avformat'', ''avcodec'', ''avutil'', ''OpenCL'']
                          then Some (''lib'' @ n @ ''.so'') else None),
      importable = (\<lambda>m path. m = ''cv2''),
      platform = ''linux2'', py_ver_X = 2, py_ver_Y = 7, homebrew_site_pkgs = None\<rparr>"

definition bare_box :: world where
  \<comment> \<open>a machine on which no program can be started\<close>
  "bare_box = linux_box\<lparr>launch := (\<lambda>argv env. None), find_library := (\<lambda>n. None)\<rparr>"

definition py3_box :: world where
  \<comment> \<open>the same machine as \<open>linux_box\<close> with Python 3.6 running the script\<close>
  "py3_box = linux_box\<lparr>py_ver_X := 3, py_ver_Y := 6\<rparr>"

definition no_avcodec_box :: world where
  \<comment> \<open>the machine \<open>linux_box\<close> without the library \<^verbatim>\<open>avcodec\<close>\<close>
  "no_avcodec_box =
     linux_box\<lparr>launch := (\<lambda>argv env. if argv = [''pkg-config'', ''--exists'', ''avcodec'']
                                    then Some (1, []) else linux_tools argv),
               find_library := (\<lambda>n. if n = ''avcodec'' then None else find_library linux_box n)\<rparr>"

definition no_cv2_box :: world where
  \<comment> \<open>the machine \<open>linux_box\<close> without the binding module\<close>
  "no_cv2_box = linux_box\<lparr>importable := (\<lambda>m path. False)\<rparr>"

definition fresh :: pystate where
  "fresh =
     \<lparr>os_environ = [''PKG_CONFIG_PATH'' \<mapsto> ''/opt/lib/pkgconfig''],
      copies = [], sys_path = [[], ''/usr/lib/python2.7''], calls = []\<rparr>"

section \<open>Facts about the string functions\<close>

lemma find_str_ge: "- 1 \<le> find_str x y"
  by (induction x) (auto simp: Let_def)

lemma chop_at_scan: "y \<noteq> [] \<Longrightarrow> chop_at x y = chop_scan y x"
proof (induction x)
  case Nil
  then show ?case by (simp add: chop_at_def)
next
  case (Cons c cs)
  have ge: "- 1 \<le> find_str cs y" by (rule find_str_ge)
  show ?case
  proof (cases "prefix y (c # cs)")
    case True
    then show ?thesis by (simp add: chop_at_def)
  next
    case False
    show ?thesis
    proof (cases "find_str cs y = - 1")
      case True
      with False Cons show ?thesis by (simp add: chop_at_def Let_def)
    next
      case neq: False
      with ge have pos: "0 \<le> find_str cs y" by arith
      then have "nat (find_str cs y + 1) = Suc (nat (find_str cs y))" by arith
      with False neq Cons pos show ?thesis by (simp add: chop_at_def Let_def)
    qed
  qed
qed

lemma chop_scan_prefix: "prefix (chop_scan y x) x"
  by (induction x) auto

lemma chop_scan_fix_prefix:
  "y \<noteq> [] \<Longrightarrow> chop_scan y z = z \<Longrightarrow> prefix p z \<Longrightarrow> chop_scan y p = p"
proof (induction z arbitrary: p)
  case Nil
  then show ?case by simp
next
  case (Cons c cs)
  show ?case
  proof (cases p)
    case Nil
    then show ?thesis by simp
  next
    case (Cons a p')
    with Cons.prems have a: "a = c" and p': "prefix p' cs" by auto
    from Cons.prems have np: "\<not> prefix y (c # cs)" and fx: "chop_scan y cs = cs"
      by (auto split: if_splits)
    from np have "\<not> prefix y (c # p')" using p'
      by (meson Cons_prefix_Cons prefix_order.trans)
    moreover have "chop_scan y p' = p'" using Cons.IH[OF Cons.prems(1) fx p'] .
    ultimately show ?thesis using Cons a by simp
  qed
qed

lemma chop_scan_idem: "y \<noteq> [] \<Longrightarrow> chop_scan y (chop_scan y x) = chop_scan y x"
proof (induction x)
  case Nil
  then show ?case by simp
next
  case (Cons c cs)
  show ?case
  proof (cases "prefix y (c # cs)")
    case True
    then show ?thesis by simp
  next
    case False
    have "prefix (c # chop_scan y cs) (c # cs)" by (simp add: chop_scan_prefix)
    with False have "\<not> prefix y (c # chop_scan y cs)"
      by (meson prefix_order.trans)
    with False Cons show ?thesis by simp
  qed
qed


lemma chop_scan_keeps_prefix:
  "prefix p cs \<Longrightarrow> d \<notin> set p \<Longrightarrow> prefix p (chop_scan (d # y) cs)"
proof (induction p arbitrary: cs)
  case Nil
  then show ?case by simp
next
  case (Cons a p)
  then obtain cs' where cs: "cs = a # cs'" and p: "prefix p cs'"
    by (cases cs) auto
  from Cons.prems have "a \<noteq> d" and "d \<notin> set p" by auto
  with Cons.IH[OF p] cs show ?case by simp
qed

lemma not_prefix_chop:
  "\<not> prefix y (c # cs) \<Longrightarrow> \<not> prefix y (c # chop_scan z cs)"
proof
  assume n: "\<not> prefix y (c # cs)" and p: "prefix y (c # chop_scan z cs)"
  have "prefix (c # chop_scan z cs) (c # cs)" by (simp add: chop_scan_prefix)
  with p have "prefix y (c # cs)" by (rule prefix_order.trans)
  with n show False by simp
qed

lemma chops_truncate:
  "chop_scan ''.a'' (chop_scan ''.dylib'' (chop_scan ''.so'' x)) = truncate_at_first_match x"
proof (induction x)
  case Nil
  then show ?case by simp
next
  case (Cons c cs)
  show ?case
  proof (cases "prefix ''.so'' (c # cs)")
    case True
    then show ?thesis by simp
  next
    case nso: False
    then have s1: "chop_scan ''.so'' (c # cs) = c # chop_scan ''.so'' cs" by simp
    show ?thesis
    proof (cases "prefix ''.dylib'' (c # cs)")
      case True
      then have c: "c = CHR ''.''" and r: "prefix ''dylib'' cs" by auto
      have "prefix ''dylib'' (chop_scan ''.so'' cs)"
        using r by (rule chop_scan_keeps_prefix) simp
      with c have "prefix ''.dylib'' (c # chop_scan ''.so'' cs)" by simp
      with True s1 show ?thesis by simp
    next
      case ndy: False
      then have "\<not> prefix ''.dylib'' (c # chop_scan ''.so'' cs)" by (rule not_prefix_chop)
      with s1 have s2: "chop_scan ''.dylib'' (chop_scan ''.so'' (c # cs))
          = c # chop_scan ''.dylib'' (chop_scan ''.so'' cs)" by simp
      show ?thesis
      proof (cases "prefix ''.a'' (c # cs)")
        case True
        then have c: "c = CHR ''.''" and r: "prefix ''a'' cs" by auto
        have "prefix ''a'' (chop_scan ''.so'' cs)"
          using r by (rule chop_scan_keeps_prefix) simp
        then have "prefix ''a'' (chop_scan ''.dylib'' (chop_scan ''.so'' cs))"
          by (rule chop_scan_keeps_prefix) simp
        with c have "prefix ''.a'' (c # chop_scan ''.dylib'' (chop_scan ''.so'' cs))" by simp
        with True s2 show ?thesis by simp
      next
        case na: False
        then have "\<not> prefix ''.a'' (c # chop_scan ''.so'' cs)" by (rule not_prefix_chop)
        then have "\<not> prefix ''.a'' (c # chop_scan ''.dylib'' (chop_scan ''.so'' cs))"
          by (rule not_prefix_chop)
        with s2 nso ndy na Cons.IH show ?thesis by simp
      qed
    qed
  qed
qed

lemma short_name_chops:
  "get_lib_short_name raw =
     chop_scan ''.a'' (chop_scan ''.dylib'' (chop_scan ''.so''
       (strip_leading ''lib'' (strip_leading ''-l'' (basename (strip raw))))))"
  by (simp add: get_lib_short_name_def Let_def chop_at_scan strip_leading_def startswith_def
      numeral_2_eq_2 numeral_3_eq_3)

lemma basename_no_slash: "CHR ''/'' \<notin> set (basename p)"
  unfolding basename_def set_rev
  by (metis (mono_tags, lifting) set_takeWhileD)

lemma basename_id: "CHR ''/'' \<notin> set p \<Longrightarrow> basename p = p"
proof -
  assume "CHR ''/'' \<notin> set p"
  then have "takeWhile (\<lambda>c. c \<noteq> CHR ''/'') (rev p) = rev p"
    by (intro takeWhile_eq_all_conv[THEN iffD2]) auto
  then show ?thesis unfolding basename_def by (simp only: rev_rev_ident)
qed

lemma set_strip_leading: "set (strip_leading p s) \<subseteq> set s"
  by (auto simp: strip_leading_def dest: in_set_dropD)

lemma set_chop_scan: "set (chop_scan y x) \<subseteq> set x"
  using chop_scan_prefix[of y x] by (rule set_mono_prefix)

lemma short_name_no_slash: "CHR ''/'' \<notin> set (get_lib_short_name raw)"
proof -
  have "set (get_lib_short_name raw) \<subseteq> set (basename (strip raw))"
    unfolding short_name_chops
    by (meson set_chop_scan set_strip_leading subset_trans)
  with basename_no_slash show ?thesis by blast
qed

lemma chop_scan_chain_fix:
  assumes "k \<noteq> []"
  shows "chop_scan k z = z \<Longrightarrow> chop_scan k (chop_scan y z) = chop_scan y z"
  using assms chop_scan_fix_prefix chop_scan_prefix by blast

lemma find_str_sublist: "find_str x y \<noteq> - 1 \<longleftrightarrow> sublist y x"
proof (induction x)
  case Nil
  then show ?case by simp
next
  case (Cons c cs)
  have ge: "- 1 \<le> find_str cs y" by (rule find_str_ge)
  show ?case
  proof (cases "prefix y (c # cs)")
    case True
    then show ?thesis by (simp add: sublist_Cons_right)
  next
    case False
    have "find_str (c # cs) y \<noteq> - 1 \<longleftrightarrow> find_str cs y \<noteq> - 1"
      using False ge by (simp add: Let_def)
    with False Cons show ?thesis by (simp add: sublist_Cons_right)
  qed
qed

lemma split_str_not_Nil: "split_str xs sep \<noteq> []"
  by (induction xs sep rule: split_str.induct) (auto split: list.splits)

lemma split_str_first_prefix: "split_str xs sep = t # ts \<Longrightarrow> prefix t xs"
proof (induction xs sep arbitrary: t ts rule: split_str.induct)
  case (1 sep)
  then show ?case by simp
next
  case (2 c cs sep)
  show ?case
  proof (cases "sep \<noteq> [] \<and> prefix sep (c # cs)")
    case True
    with "2.prems" show ?thesis by simp
  next
    case False
    obtain t0 ts0 where s0: "split_str cs sep = t0 # ts0"
      using split_str_not_Nil[of cs sep] by (cases "split_str cs sep") auto
    with False "2.prems" have t: "t = c # t0" by auto
    from "2.IH"(2)[OF False s0] have "prefix t0 cs" .
    with t show ?thesis by simp
  qed
qed

lemma split_str_sublist: "t \<in> set (split_str xs sep) \<Longrightarrow> sublist t xs"
proof (induction xs sep arbitrary: t rule: split_str.induct)
  case (1 sep)
  then show ?case by simp
next
  case (2 c cs sep)
  show ?case
  proof (cases "sep \<noteq> [] \<and> prefix sep (c # cs)")
    case True
    with "2.prems" have "t = [] \<or> t \<in> set (split_str (drop (length sep) (c # cs)) sep)"
      by simp
    then show ?thesis
    proof
      assume "t = []"
      then show ?thesis by simp
    next
      assume "t \<in> set (split_str (drop (length sep) (c # cs)) sep)"
      from "2.IH"(1)[OF True this] have "sublist t (drop (length sep) (c # cs))" .
      moreover have "sublist (drop (length sep) (c # cs)) (c # cs)"
        by (rule suffix_imp_sublist) (rule suffix_drop)
      ultimately show ?thesis by (rule sublist_order.order.trans)
    qed
  next
    case False
    obtain t0 ts0 where s0: "split_str cs sep = t0 # ts0"
      using split_str_not_Nil[of cs sep] by (cases "split_str cs sep") auto
    with False "2.prems" have "t = c # t0 \<or> t \<in> set ts0" by auto
    then show ?thesis
    proof
      assume t: "t = c # t0"
      from split_str_first_prefix[OF s0] have "prefix (c # t0) (c # cs)" by simp
      with t show ?thesis by simp
    next
      assume "t \<in> set ts0"
      with s0 have "t \<in> set (split_str cs sep)" by simp
      from "2.IH"(2)[OF False this] have "sublist t cs" .
      then show ?thesis by (simp add: sublist_Cons_right)
    qed
  qed
qed

lemma installed_path_loop_filter:
  "installed_path_loop libname xs =
     (case filter (\<lambda>x. startswith x libname) xs of
        [] \<Rightarrow> Inr None
      | x # rest \<Rightarrow>
          (case split_str x ''=>'' of
             y0 # y1 # ys \<Rightarrow> Inr (Some (strip y1))
           | _ \<Rightarrow> Inl IndexError))"
  by (induction xs) auto

lemma not_contained_no_entry:
  assumes "\<not> contains res libname"
  shows "filter (\<lambda>x. startswith x libname) (split_str res sep) = []"
proof -
  have "\<not> startswith x libname" if "x \<in> set (split_str res sep)" for x
  proof
    assume "startswith x libname"
    then have "sublist libname x" by (simp add: startswith_def)
    moreover from that have "sublist x res" by (rule split_str_sublist)
    ultimately have "sublist libname res" by (rule sublist_order.order.trans)
    with assms show False by (simp add: contains_def find_str_sublist)
  qed
  then show ?thesis by (simp add: filter_empty_conv)
qed

lemma installed_path_in_entries:
  "installed_path_in res libname =
     (case filter (\<lambda>x. startswith x libname) (split_str res [CHR 0x0A, CHR 0x09]) of
        [] \<Rightarrow> Inr None
      | x # rest \<Rightarrow>
          (case split_str x ''=>'' of
             y0 # y1 # ys \<Rightarrow> Inr (Some (strip y1))
           | _ \<Rightarrow> Inl IndexError))"
  by (simp add: installed_path_in_def installed_path_loop_filter not_contained_no_entry)

section \<open>What one call does to the state\<close>

lemma get_extra_envs_run:
  "get_extra_envs s =
     (Inr (Copy (length (copies s))), s\<lparr>copies := copies s @ [augmented (os_environ s)]\<rparr>)"
  by (cases "os_environ s ''PKG_CONFIG_PATH''")
     (simp_all add: get_extra_envs_def py_bind_def dict_copy_def dict_get_def dict_set_def
       py_return_def augmented_def)

lemma have_command_run:
  "have_command w name s =
     (case launch w [''which'', name] (os_environ s) of
        None \<Rightarrow> Inl OSError
      | Some (proc, out) \<Rightarrow> Inr (proc = 0),
      s\<lparr>calls := calls s @ [Subprocess [''which'', name] (os_environ s)]\<rparr>)"
  by (simp add: have_command_def py_bind_def subprocess_def py_return_def Let_def
      split: option.splits prod.splits)

lemma get_lib_installed_path_run:
  "get_lib_installed_path w libname s =
     (case launch w [''ldconfig'', ''-p''] (os_environ s) of
        None \<Rightarrow> Inl OSError
      | Some (proc, res) \<Rightarrow> installed_path_in res libname,
      s\<lparr>calls := calls s @ [Subprocess [''ldconfig'', ''-p''] (os_environ s)]\<rparr>)"
  by (simp add: get_lib_installed_path_def py_bind_def subprocess_def py_pure_def Let_def
      split: option.splits prod.splits sum.splits)

lemma have_library_run:
  "have_library w name s =
     (if find_library w (get_lib_short_name name) = None \<or>
         find_library w (get_lib_short_name name) = Some []
      then (case launch w [''pkg-config'', ''--exists'', name] (augmented (os_environ s)) of
              None \<Rightarrow> Inl OSError
            | Some (proc, out) \<Rightarrow> Inr (proc = 0),
            s\<lparr>copies := copies s @ [augmented (os_environ s)],
              calls := calls s @ [FindLibrary (get_lib_short_name name),
                Subprocess [''pkg-config'', ''--exists'', name] (augmented (os_environ s))]\<rparr>)
      else (Inr True, s\<lparr>calls := calls s @ [FindLibrary (get_lib_short_name name)]\<rparr>))"
  by (simp add: have_library_def py_bind_def subprocess_def py_return_def Let_def
      ctypes_find_library_def get_extra_envs_run
      split: option.splits prod.splits)

lemma have_library_object_file_run:
  "have_library_object_file w libname name s =
     (case have_library w libname s of
        (Inl e, s') \<Rightarrow> (Inl e, s')
      | (Inr False, s') \<Rightarrow> (Inr False, s')
      | (Inr True, s') \<Rightarrow>
          (case launch w [''pkg-config'', ''--libs'', libname] (augmented (os_environ s')) of
             None \<Rightarrow> Inl OSError
           | Some (proc, res) \<Rightarrow>
               Inr (get_lib_short_name name
                      \<in> set (map get_lib_short_name (split_str (strip res) '' ''))),
           s'\<lparr>copies := copies s' @ [augmented (os_environ s')],
              calls := calls s' @
                [Subprocess [''pkg-config'', ''--libs'', libname] (augmented (os_environ s'))]\<rparr>))"
  by (simp add: have_library_object_file_def py_bind_def subprocess_def py_return_def Let_def
      get_extra_envs_run split: option.splits prod.splits sum.splits bool.splits)

lemma pkg_config_res_run:
  "pkg_config_res w opts s =
     (case launch w (''pkg-config'' # opts) (augmented (os_environ s)) of
        None \<Rightarrow> Inl OSError
      | Some (proc, res) \<Rightarrow> pkg_config_loop (split_str (strip res) '' '') [],
      s\<lparr>copies := copies s @ [augmented (os_environ s)],
        calls := calls s @ [Subprocess (''pkg-config'' # opts) (augmented (os_environ s))]\<rparr>)"
  by (simp add: pkg_config_res_def py_bind_def subprocess_def py_pure_def Let_def
      get_extra_envs_run split: option.splits prod.splits sum.splits)

section \<open>NameNormalizer\<close>

text \<open>
  Claim C8, as stated: for every raw string the canonical name is the result of three steps,
  strip a leading \<^verbatim>\<open>-l\<close>, strip a leading \<^verbatim>\<open>lib\<close>, truncate at the first match of
  \<^verbatim>\<open>.so\<close>, \<^verbatim>\<open>.dylib\<close> or \<^verbatim>\<open>.a\<close>. On the path of an installed library the code
  returns \<^verbatim>\<open>OpenCL\<close>, the three steps return the path up to the suffix.
\<close>

theorem normalize_steps_counterexample:
  "get_lib_short_name ''/usr/lib/libOpenCL.so.1'' = ''OpenCL'' \<and>
   normalize_as_claimed ''/usr/lib/libOpenCL.so.1'' = ''/usr/lib/libOpenCL''"
  by (simp add: get_lib_short_name_def strip_def basename_def startswith_def chop_at_def
      is_space_def Let_def normalize_as_claimed_def strip_leading_def)

text \<open>
  Claim C8, amended: \<^verbatim>\<open>get_lib_short_name\<close> first strips surrounding whitespace and keeps
  the part after the last \<^verbatim>\<open>/\<close>; on that it strips a leading \<^verbatim>\<open>-l\<close>, then a leading
  \<^verbatim>\<open>lib\<close>, then truncates at the first match of \<^verbatim>\<open>.so\<close>, \<^verbatim>\<open>.dylib\<close> or \<^verbatim>\<open>.a\<close>
  (the three successive cuts of the code end at the first position at which any of the three
  suffixes occurs). It is a function of its argument alone, defined on every string.
\<close>

theorem normalize_steps:
  "get_lib_short_name raw = normalize_as_claimed (basename (strip raw))"
  unfolding short_name_chops normalize_as_claimed_def chops_truncate ..

text \<open>
  Claim C4, as stated: normalizing twice is the same as normalizing once, for every string.
  One prefix is stripped per call, so a name in which \<^verbatim>\<open>lib\<close> is repeated changes again.
\<close>

theorem normalize_idempotent_counterexample:
  "get_lib_short_name (get_lib_short_name ''liblibfoo.so'') \<noteq> get_lib_short_name ''liblibfoo.so''"
  by (simp add: get_lib_short_name_def strip_def basename_def startswith_def chop_at_def
      is_space_def Let_def)

text \<open>
  Claim C4, amended: normalizing twice is the same as normalizing once for every string whose
  canonical name has no surrounding whitespace and starts neither with \<^verbatim>\<open>-l\<close> nor with
  \<^verbatim>\<open>lib\<close>; \<^verbatim>\<open>-lavcodec\<close> gives \<^verbatim>\<open>avcodec\<close> and \<^verbatim>\<open>libopencv_core.so.3.4\<close> gives
  \<^verbatim>\<open>opencv_core\<close>.
\<close>

theorem normalize_idempotent:
  assumes st: "strip (get_lib_short_name x) = get_lib_short_name x"
    and nl: "\<not> startswith (get_lib_short_name x) ''-l''"
    and nlib: "\<not> startswith (get_lib_short_name x) ''lib''"
  shows "get_lib_short_name (get_lib_short_name x) = get_lib_short_name x \<and>
         get_lib_short_name ''-lavcodec'' = ''avcodec'' \<and>
         get_lib_short_name ''libopencv_core.so.3.4'' = ''opencv_core''"
proof -
  define y where "y = get_lib_short_name x"
  define n where "n = strip_leading ''lib'' (strip_leading ''-l'' (basename (strip x)))"
  have y: "y = chop_scan ''.a'' (chop_scan ''.dylib'' (chop_scan ''.so'' n))"
    unfolding y_def n_def by (rule short_name_chops)
  have so: "chop_scan ''.so'' y = y"
    unfolding y by (intro chop_scan_chain_fix chop_scan_idem) simp_all
  have dy: "chop_scan ''.dylib'' y = y"
    unfolding y by (intro chop_scan_chain_fix chop_scan_idem) simp_all
  have a: "chop_scan ''.a'' y = y"
    unfolding y by (intro chop_scan_idem) simp_all
  have b: "basename y = y"
    unfolding y_def by (rule basename_id) (rule short_name_no_slash)
  have "get_lib_short_name y = y"
    unfolding short_name_chops[of y]
    using st nl nlib b so dy a by (simp add: y_def[symmetric] strip_leading_def startswith_def)
  then have "get_lib_short_name (get_lib_short_name x) = get_lib_short_name x"
    by (simp add: y_def)
  moreover have "get_lib_short_name ''-lavcodec'' = ''avcodec''"
    by (simp add: get_lib_short_name_def strip_def basename_def startswith_def chop_at_def
        is_space_def Let_def)
  moreover have "get_lib_short_name ''libopencv_core.so.3.4'' = ''opencv_core''"
    by (simp add: get_lib_short_name_def strip_def basename_def startswith_def chop_at_def
        is_space_def Let_def)
  ultimately show ?thesis by simp
qed

theorem normalize_idempotent_witness:
  "strip (get_lib_short_name ''/usr/lib/libavcodec.so.54'') = get_lib_short_name ''/usr/lib/libavcodec.so.54'' \<and>
   \<not> startswith (get_lib_short_name ''/usr/lib/libavcodec.so.54'') ''-l'' \<and>
   \<not> startswith (get_lib_short_name ''/usr/lib/libavcodec.so.54'') ''lib'' \<and>
   get_lib_short_name (get_lib_short_name ''/usr/lib/libavcodec.so.54'') = ''avcodec''"
proof -
  have v: "get_lib_short_name ''/usr/lib/libavcodec.so.54'' = ''avcodec''"
    by (simp add: get_lib_short_name_def strip_def basename_def startswith_def chop_at_def
        is_space_def Let_def)
  have h1: "strip (get_lib_short_name ''/usr/lib/libavcodec.so.54'') = get_lib_short_name ''/usr/lib/libavcodec.so.54''"
    unfolding v by (simp add: strip_def is_space_def)
  have h2: "\<not> startswith (get_lib_short_name ''/usr/lib/libavcodec.so.54'') ''-l''"
    unfolding v by (simp add: startswith_def)
  have h3: "\<not> startswith (get_lib_short_name ''/usr/lib/libavcodec.so.54'') ''lib''"
    unfolding v by (simp add: startswith_def)
  from normalize_idempotent [OF h1 h2 h3] h1 h2 h3 v show ?thesis by simp
qed

section \<open>EnvironmentAugmenter\<close>

text \<open>
  Claim C7. \<^verbatim>\<open>get_extra_envs\<close> leaves the object \<^verbatim>\<open>os.environ\<close> and every dict made before
  as they were, and returns a new dict: the ambient environment in which
  \<^verbatim>\<open>PKG_CONFIG_PATH\<close> is the former value, a colon and the three local directories joined with
  colons, or the three directories alone when the variable was not set.
\<close>

theorem get_extra_envs_frame:
  "os_environ (snd (get_extra_envs s)) = os_environ s \<and>
   take (length (copies s)) (copies (snd (get_extra_envs s))) = copies s \<and>
   fst (get_extra_envs s) = Inr (Copy (length (copies s))) \<and>
   deref (snd (get_extra_envs s)) (Copy (length (copies s))) =
     (os_environ s)(''PKG_CONFIG_PATH'' \<mapsto>
        (case os_environ s ''PKG_CONFIG_PATH'' of
           None \<Rightarrow> join_paths [''/usr/local/lib/pkgconfig'', ''/usr/local/pkgconfig'', ''/usr/share/pkgconfig'']
         | Some v \<Rightarrow> v @ '':'' @ join_paths [''/usr/local/lib/pkgconfig'', ''/usr/local/pkgconfig'', ''/usr/share/pkgconfig'']))"
  unfolding get_extra_envs_run
  by (cases "os_environ s ''PKG_CONFIG_PATH''") (simp_all add: augmented_def local_pkg_config_paths_def)

section \<open>LibraryResolver.resolve\<close>



section \<open>Failed launches\<close>

text \<open>
  Claim C3, as stated: when the locator or the lister cannot be started, \<^verbatim>\<open>have_command\<close>
  returns false and \<^verbatim>\<open>get_lib_installed_path\<close> returns none. On a machine on which no
  program can be started both raise \<^verbatim>\<open>OSError\<close>.
\<close>

theorem launch_failure_counterexample:
  "fst (have_command bare_box ''pkg-config'' fresh) = Inl OSError \<and>
   fst (get_lib_installed_path bare_box ''libOpenCL'' fresh) = Inl OSError"
  by code_simp

text \<open>
  Claim C3, amended: a failed launch is not folded into "absent": when \<^verbatim>\<open>which\<close> or
  \<^verbatim>\<open>ldconfig\<close> cannot be started, \<^verbatim>\<open>OSError\<close> leaves \<^verbatim>\<open>have_command\<close> or
  \<^verbatim>\<open>get_lib_installed_path\<close>. When \<^verbatim>\<open>which\<close> could be started, \<^verbatim>\<open>have_command\<close> returns
  whether it exited with 0. When \<^verbatim>\<open>ldconfig\<close> could be started,
  \<^verbatim>\<open>get_lib_installed_path\<close> looks at the first entry of its output (the entries are
  separated by a newline and a tab) that starts with the name: it returns none when there is
  no such entry, and the text between the first \<^verbatim>\<open>=>\<close> of that entry and the next, without
  surrounding whitespace, when the entry has a \<^verbatim>\<open>=>\<close>.
\<close>

theorem launch_failure_raises:
  "fst (have_command w name s) =
     (case launch w [''which'', name] (os_environ s) of
        None \<Rightarrow> Inl OSError
      | Some (proc, out) \<Rightarrow> Inr (proc = 0)) \<and>
   fst (get_lib_installed_path w libname s) =
     (case launch w [''ldconfig'', ''-p''] (os_environ s) of
        None \<Rightarrow> Inl OSError
      | Some (proc, res) \<Rightarrow>
          (case filter (\<lambda>x. startswith x libname) (split_str res [CHR 0x0A, CHR 0x09]) of
             [] \<Rightarrow> Inr None
           | x # rest \<Rightarrow>
               (case split_str x ''=>'' of
                  y0 # y1 # ys \<Rightarrow> Inr (Some (strip y1))
                | _ \<Rightarrow> Inl IndexError))) \<and>
   fst (have_command linux_box ''pkg-config'' fresh) = Inr True \<and>
   fst (get_lib_installed_path linux_box ''libOpenCL'' fresh) = Inr (Some ''/usr/lib/libOpenCL.so.1'') \<and>
   fst (get_lib_installed_path linux_box ''libopencv_core'' fresh) = Inr None"
proof -
  have a: "fst (have_command linux_box ''pkg-config'' fresh) = Inr True" by code_simp
  have b: "fst (get_lib_installed_path linux_box ''libOpenCL'' fresh) =
      Inr (Some ''/usr/lib/libOpenCL.so.1'')" by code_simp
  have c: "fst (get_lib_installed_path linux_box ''libopencv_core'' fresh) = Inr None"
    by code_simp
  have d: "fst (get_lib_installed_path w libname s) =
     (case launch w [''ldconfig'', ''-p''] (os_environ s) of
        None \<Rightarrow> Inl OSError
      | Some (proc, res) \<Rightarrow>
          (case filter (\<lambda>x. startswith x libname) (split_str res [CHR 0x0A, CHR 0x09]) of
             [] \<Rightarrow> Inr None
           | x # rest \<Rightarrow>
               (case split_str x ''=>'' of
                  y0 # y1 # ys \<Rightarrow> Inr (Some (strip y1))
                | _ \<Rightarrow> Inl IndexError)))"
    by (simp add: get_lib_installed_path_run installed_path_in_entries
        split: option.splits prod.splits)
  from a b c d show ?thesis by (simp add: have_command_run)
qed

section \<open>InstalledPathLookup.namespec\<close>

lemma installed_path_examples:
  "installed_path_in ldconfig_output ''libOpenCL'' = Inr (Some ''/usr/lib/libOpenCL.so.1'')"
  "installed_path_in ldconfig_output ''libopencv_core'' = Inr None"
  by code_simp+

text \<open>
  Claim C2, as stated: when the lookup returns none, \<^verbatim>\<open>namespec\<close> fails with a documented
  error and not with a crash. \<^verbatim>\<open>get_lib_filename_namespec\<close> has no check of its own: the
  \<^verbatim>\<open>None\<close> goes to \<^verbatim>\<open>os.path.basename\<close>, and the \<^verbatim>\<open>AttributeError\<close> of the interpreter
  leaves the function.
\<close>

theorem namespec_counterexample:
  "fst (get_lib_installed_path linux_box ''libopencv_core'' fresh) = Inr None \<and>
   fst (get_lib_filename_namespec linux_box ''libopencv_core'' fresh) = Inl AttributeError"
  by code_simp

text \<open>
  Claim C2, amended: when the lookup returns a path, \<^verbatim>\<open>get_lib_filename_namespec\<close>
  returns a colon followed by the filename component of that path; when the lookup returns
  none, the \<^verbatim>\<open>AttributeError\<close> raised inside \<^verbatim>\<open>os.path.basename(None)\<close> leaves the function;
  an exception of the lookup itself is passed on.
\<close>

theorem namespec_of_lookup:
  "get_lib_filename_namespec w libname s =
     (case get_lib_installed_path w libname s of
        (Inl e, s') \<Rightarrow> (Inl e, s')
      | (Inr None, s') \<Rightarrow> (Inl AttributeError, s')
      | (Inr (Some p), s') \<Rightarrow> (Inr ('':'' @ basename p), s')) \<and>
   fst (get_lib_filename_namespec linux_box ''libOpenCL'' fresh) = Inr '':libOpenCL.so.1''"
proof -
  have "fst (get_lib_filename_namespec linux_box ''libOpenCL'' fresh) = Inr '':libOpenCL.so.1''"
    by code_simp
  moreover have "get_lib_filename_namespec w libname s =
     (case get_lib_installed_path w libname s of
        (Inl e, s') \<Rightarrow> (Inl e, s')
      | (Inr None, s') \<Rightarrow> (Inl AttributeError, s')
      | (Inr (Some p), s') \<Rightarrow> (Inr ('':'' @ basename p), s'))"
    by (simp add: get_lib_filename_namespec_def py_bind_def py_raise_def py_return_def
        split: option.splits prod.splits sum.splits)
  ultimately show ?thesis by simp
qed

section \<open>LibraryResolver.resolveObjectFile\<close>

text \<open>
  Claim C9, as stated: the result is true iff the package resolves and the canonical object
  file name is among the canonical forms of the whitespace-separated tokens of the
  \<^verbatim>\<open>--libs\<close> output. The code splits at every single space, so two consecutive spaces
  give an empty token; with the output below the package resolves, the canonical name of
  \<^verbatim>\<open>lib\<close> is the empty string, which is no whitespace-separated token, and the code
  returns true.
\<close>

theorem object_file_counterexample:
  "fst (have_library_object_file linux_box ''opencv'' ''lib'' fresh) = Inr True \<and>
   launch linux_box [''pkg-config'', ''--libs'', ''opencv''] (augmented (os_environ fresh)) =
     Some (0, ''-lopencv_core  -lopencv_ocl -lopencv_imgproc '' @ [CHR 0x0A]) \<and>
   fst (have_library linux_box ''opencv'' fresh) = Inr True \<and>
   get_lib_short_name ''lib'' \<notin> set (map get_lib_short_name
     (split_whitespace (''-lopencv_core  -lopencv_ocl -lopencv_imgproc '' @ [CHR 0x0A])))"
  by code_simp

text \<open>
  Claim C9, amended: \<^verbatim>\<open>have_library_object_file\<close> returns false, without raising, when
  \<^verbatim>\<open>have_library\<close> returns false for the package; when that returns true, it returns
  whether the canonical object file name is among the canonical forms of the tokens obtained
  by stripping the output of \<^verbatim>\<open>pkg-config --libs\<close> (run under the augmented environment)
  and splitting it at every single space character. Exceptions of \<^verbatim>\<open>have_library\<close> and
  of the launch are passed on.
\<close>

theorem object_file_lookup:
  "fst (have_library_object_file w libname name s) =
     (case fst (have_library w libname s) of
        Inl e \<Rightarrow> Inl e
      | Inr False \<Rightarrow> Inr False
      | Inr True \<Rightarrow>
          (case launch w [''pkg-config'', ''--libs'', libname] (augmented (os_environ s)) of
             None \<Rightarrow> Inl OSError
           | Some (proc, res) \<Rightarrow>
               Inr (get_lib_short_name name
                      \<in> set (map get_lib_short_name (split_str (strip res) '' ''))))) \<and>
   fst (have_library_object_file linux_box ''opencv'' ''libopencv_ocl.so'' fresh) = Inr True \<and>
   fst (have_library_object_file linux_box ''madeup_lib_xyz'' ''libopencv_ocl.so'' fresh) = Inr False"
proof -
  have a: "fst (have_library_object_file linux_box ''opencv'' ''libopencv_ocl.so'' fresh) = Inr True"
    by code_simp
  have b: "fst (have_library_object_file linux_box ''madeup_lib_xyz'' ''libopencv_ocl.so'' fresh) = Inr False"
    by code_simp
  have env: "os_environ (snd (have_library w libname s)) = os_environ s"
    by (simp add: have_library_run)
  have "fst (have_library_object_file w libname name s) =
     (case fst (have_library w libname s) of
        Inl e \<Rightarrow> Inl e
      | Inr False \<Rightarrow> Inr False
      | Inr True \<Rightarrow>
          (case launch w [''pkg-config'', ''--libs'', libname] (augmented (os_environ s)) of
             None \<Rightarrow> Inl OSError
           | Some (proc, res) \<Rightarrow>
               Inr (get_lib_short_name name
                      \<in> set (map get_lib_short_name (split_str (strip res) '' '')))))"
    unfolding have_library_object_file_run
    using env by (cases "have_library w libname s") (auto split: sum.splits bool.splits)
  with a b show ?thesis by simp
qed

section \<open>PkgConfigQuery\<close>

lemma pkg_config_loop_map:
  "\<forall>x \<in> set toks. x \<noteq> [] \<longrightarrow> strip x \<noteq> [] \<and> strip x \<noteq> ''-'' \<Longrightarrow>
   pkg_config_loop toks lst = Inr (lst @ map flag_value (filter (\<lambda>x. x \<noteq> []) toks))"
proof (induction toks arbitrary: lst)
  case Nil
  then show ?case by simp
next
  case (Cons x xs)
  then have IH: "\<And>l. pkg_config_loop xs l = Inr (l @ map flag_value (filter (\<lambda>x. x \<noteq> []) xs))"
    by simp
  show ?case
  proof (cases "x = []")
    case True
    then show ?thesis by (simp add: IH)
  next
    case False
    with Cons.prems have ne: "strip x \<noteq> []" and nd: "strip x \<noteq> ''-''" by auto
    then obtain c cs where sx: "strip x = c # cs" by (cases "strip x") auto
    show ?thesis
    proof (cases "c = CHR ''-''")
      case True
      with nd sx obtain d ds where cs: "cs = d # ds" by (cases cs) auto
      with True sx False show ?thesis
        by (simp add: IH flag_value_def strip_leading_def)
    next
      case nc: False
      with sx False show ?thesis
        by (simp add: IH flag_value_def strip_leading_def)
    qed
  qed
qed

text \<open>
  Claim C5, as stated: the remainder of an \<^verbatim>\<open>l\<close> token is passed through NameNormalizer.
  The code appends the remainder of an \<^verbatim>\<open>l\<close>, \<^verbatim>\<open>L\<close> or \<^verbatim>\<open>I\<close> token as it is: the
  exact-filename specifier \<^verbatim>\<open>-l:libOpenCL.so.1\<close> is kept whole, where the claim gives
  \<^verbatim>\<open>:libOpenCL\<close>.
\<close>

theorem pkg_config_tokens_counterexample:
  "fst (pkg_config_res linux_box [''--libs'', ''OpenCL''] fresh) =
     Inr [''/usr/lib'', '':libOpenCL.so.1''] \<and>
   map flag_value_claimed [''-L/usr/lib'', ''-l:libOpenCL.so.1''] =
     [''/usr/lib'', '':libOpenCL'']"
  by code_simp

text \<open>
  Claim C5, amended: \<^verbatim>\<open>pkg_config_res\<close> strips the output, splits it at every single space
  and drops the empty tokens; of each other token it strips surrounding whitespace and one
  leading \<^verbatim>\<open>-\<close>; if the next character is \<^verbatim>\<open>l\<close>, \<^verbatim>\<open>L\<close> or \<^verbatim>\<open>I\<close> the value is the
  remainder, unchanged in all three cases; otherwise the value is the canonical name of the
  token without its \<^verbatim>\<open>-\<close>. The values are returned in the order of the output, as one list
  of strings. This holds when the tool could be started and no token is only whitespace or
  only \<^verbatim>\<open>-\<close>.
\<close>

theorem pkg_config_tokens:
  assumes "launch w (''pkg-config'' # opts) (augmented (os_environ s)) = Some (proc, res)"
    and "\<forall>x \<in> set (split_str (strip res) '' ''). x \<noteq> [] \<longrightarrow> strip x \<noteq> [] \<and> strip x \<noteq> ''-''"
  shows "fst (pkg_config_res w opts s) =
           Inr (map flag_value (filter (\<lambda>x. x \<noteq> []) (split_str (strip res) '' '')))"
  using assms pkg_config_loop_map[OF assms(2), of "[]"] by (simp add: pkg_config_res_run)

theorem pkg_config_tokens_witness:
  "launch linux_box (''pkg-config'' # [''--cflags'', ''fakepkg'']) (augmented (os_environ fresh)) =
     Some (0, ''-I/usr/include/foo -DFOO'' @ [CHR 0x0A]) \<and>
   split_str (strip (''-I/usr/include/foo -DFOO'' @ [CHR 0x0A])) '' '' =
     [''-I/usr/include/foo'', ''-DFOO''] \<and>
   fst (pkg_config_res linux_box [''--cflags'', ''fakepkg''] fresh) = Inr [''/usr/include/foo'', ''DFOO'']"
proof -
  have h1: "launch linux_box (''pkg-config'' # [''--cflags'', ''fakepkg'']) (augmented (os_environ fresh)) =
     Some (0, ''-I/usr/include/foo -DFOO'' @ [CHR 0x0A])"
    by code_simp
  have t: "split_str (strip (''-I/usr/include/foo -DFOO'' @ [CHR 0x0A])) '' '' =
     [''-I/usr/include/foo'', ''-DFOO'']"
    by code_simp
  have h2: "\<forall>x \<in> set (split_str (strip (''-I/usr/include/foo -DFOO'' @ [CHR 0x0A])) '' '').
      x \<noteq> [] \<longrightarrow> strip x \<noteq> [] \<and> strip x \<noteq> ''-''"
    by code_simp
  have v: "map flag_value (filter (\<lambda>x. x \<noteq> [])
      (split_str (strip (''-I/usr/include/foo -DFOO'' @ [CHR 0x0A])) '' '')) = [''/usr/include/foo'', ''DFOO'']"
    by code_simp
  from pkg_config_tokens [OF h1 h2] h1 t v show ?thesis by simp
qed

section \<open>DependencyGate\<close>

lemma have_command_locate: "have_command w x = locate w x"
  by (rule ext) (simp add: have_command_run locate_def)

lemma have_library_resolve_eq: "have_library w x = resolve w x"
  by (rule ext) (simp add: have_library_run resolve_def)

lemma have_library_object_file_resolve: "have_library_object_file w x y = resolve_object_file w x y"
  by (rule ext)
     (simp add: have_library_object_file_run resolve_object_file_def have_library_resolve_eq)

lemma import_cv2_binding: "import_cv2 w = binding_import w"
proof (rule ext)
  fix s
  show "import_cv2 w s = binding_import w s"
  proof (cases "homebrew_site_pkgs w")
    case None
    then show ?thesis
      by (cases "sys_path s")
         (simp_all add: import_cv2_def binding_import_def prioritized_path_def py_bind_def
           py_return_def sys_path_insert_def try_import_def)
  next
    case (Some p)
    then show ?thesis
      by (cases "sys_path s")
         (simp_all add: import_cv2_def binding_import_def prioritized_path_def py_bind_def
           py_return_def sys_path_insert_def try_import_def)
  qed
qed

lemma or_else_run:
  "or_else loop rest s =
     (case loop s of
        (Inl e, s') \<Rightarrow> (Inl e, s')
      | (Inr (Some v), s') \<Rightarrow> (Inr v, s')
      | (Inr None, s') \<Rightarrow> rest s')"
  by (simp add: or_else_def py_bind_def py_return_def split: prod.splits sum.splits option.splits)

lemma tools_loop_first_failure:
  "first_failure w (map Tool xs @ rest) s = or_else (tools_loop w xs) (first_failure w rest) s"
proof (induction xs arbitrary: s)
  case Nil
  then show ?case by (simp add: or_else_run py_return_def)
next
  case (Cons x xs)
  show ?case
    by (cases "locate w x s")
       (auto simp: or_else_run py_bind_def py_return_def Cons.IH have_command_locate
             split: prod.splits sum.splits option.splits)
qed

lemma libs_loop_first_failure:
  "first_failure w (map SharedLibrary xs @ rest) s = or_else (libs_loop w xs) (first_failure w rest) s"
proof (induction xs arbitrary: s)
  case Nil
  then show ?case by (simp add: or_else_run py_return_def)
next
  case (Cons x xs)
  show ?case
    by (cases "resolve w x s")
       (auto simp: or_else_run py_bind_def py_return_def Cons.IH have_library_resolve_eq
             split: prod.splits sum.splits option.splits)
qed

lemma objs_loop_first_failure:
  "first_failure w (map (\<lambda>(x, y). ObjectFile x y) xs @ rest) s =
     or_else (objs_loop w xs) (first_failure w rest) s"
proof (induction xs arbitrary: s)
  case Nil
  then show ?case by (simp add: or_else_run py_return_def)
next
  case (Cons p xs)
  obtain x y where p: "p = (x, y)" by (cases p)
  show ?case unfolding p
    by (cases "resolve_object_file w x y s")
       (auto simp: or_else_run py_bind_def py_return_def Cons.IH have_library_object_file_resolve
             split: prod.splits sum.splits option.splits)
qed

lemma requirements_split:
  "requirements w =
     RuntimeMajor # (map Tool (required_tools w) @ (map SharedLibrary required_libs @
       (map (\<lambda>(x, y). ObjectFile x y) required_objs @ [BindingModule])))"
  by (simp add: requirements_def required_tools_def required_libs_def required_objs_def)

lemma check_dependencies_or_else:
  "check_dependencies w =
     (if py_ver_X w \<noteq> 2
      then py_return (False, Some (''Python '' @ py_ver w @ '' is not version 2.x''))
      else or_else (tools_loop w (required_tools w))
             (or_else (libs_loop w required_libs)
               (or_else (objs_loop w required_objs)
                 (py_bind (import_cv2 w) (\<lambda>ok.
                    if ok then py_return (True, None)
                    else py_return (False, Some ''opencv built with BUILD_opencv_python=ON required''))))))"
  by (simp add: check_dependencies_def or_else_def)

lemma binding_first_failure:
  "first_failure w [BindingModule] =
     py_bind (import_cv2 w) (\<lambda>ok.
       if ok then py_return (True, None)
       else py_return (False, Some ''opencv built with BUILD_opencv_python=ON required''))"
  by (rule ext) (simp add: py_bind_def import_cv2_binding split: prod.splits sum.splits)

lemma check_dependencies_first_failure:
  "check_dependencies w s = first_failure w (requirements w) s"
proof (cases "py_ver_X w = 2")
  case False
  then show ?thesis
    by (simp add: check_dependencies_def requirements_split py_bind_def py_return_def)
next
  case True
  have rest: "first_failure w (requirements w) s =
      first_failure w (map Tool (required_tools w) @ (map SharedLibrary required_libs @
       (map (\<lambda>(x, y). ObjectFile x y) required_objs @ [BindingModule]))) s"
    using True by (simp add: requirements_split py_bind_def py_return_def)
  have l: "\<And>s. first_failure w (map SharedLibrary required_libs @
       (map (\<lambda>(x, y). ObjectFile x y) required_objs @ [BindingModule])) s =
      or_else (libs_loop w required_libs)
               (or_else (objs_loop w required_objs) (first_failure w [BindingModule])) s"
    unfolding libs_loop_first_failure
    by (simp add: or_else_run objs_loop_first_failure split: prod.splits sum.splits option.splits)
  show ?thesis
    unfolding rest tools_loop_first_failure check_dependencies_or_else binding_first_failure[symmetric]
    using True by (simp add: or_else_run l split: prod.splits sum.splits option.splits)
qed

lemma first_failure_step:
  "first_failure w (r # rs) s =
     (case probe w r s of
        (Inl e, s') \<Rightarrow> (Inl e, s')
      | (Inr True, s') \<Rightarrow> first_failure w rs s'
      | (Inr False, s') \<Rightarrow> (Inr (False, Some (diagnostic w r)), s'))"
  by (simp add: py_bind_def py_return_def split: prod.splits sum.splits bool.splits)

lemma passes_first_failure:
  "passes w rs s \<longleftrightarrow> fst (first_failure w rs s) = Inr (True, None)"
proof (induction rs arbitrary: s)
  case Nil
  then show ?case by (simp add: py_return_def)
next
  case (Cons r rs)
  show ?case unfolding first_failure_step
    by (cases "probe w r s") (auto simp: Cons.IH split: sum.splits bool.splits)
qed

lemma first_failure_no_message:
  "fst (first_failure w rs s) \<noteq> Inr (True, Some x)"
proof (induction rs arbitrary: s)
  case Nil
  then show ?case by (simp add: py_return_def)
next
  case (Cons r rs)
  show ?case unfolding first_failure_step
    using Cons.IH by (cases "probe w r s") (auto split: sum.splits bool.splits)
qed

lemma first_failure_ends:
  "first_failure w rs s = (res, s') \<Longrightarrow> res \<noteq> Inr (True, None) \<Longrightarrow>
   \<exists>pre r post s''. rs = pre @ r # post \<and> first_failure w pre s = (Inr (True, None), s'') \<and>
      (case res of
         Inl e \<Rightarrow> probe w r s'' = (Inl e, s')
       | Inr v \<Rightarrow> probe w r s'' = (Inr False, s') \<and> v = (False, Some (diagnostic w r)))"
proof (induction rs arbitrary: s)
  case Nil
  then show ?case by (simp add: py_return_def)
next
  case (Cons r rs)
  obtain pr s1 where p: "probe w r s = (pr, s1)" by (cases "probe w r s")
  have here: "pr \<noteq> Inr True \<Longrightarrow> ?case"
  proof -
    assume n: "pr \<noteq> Inr True"
    show ?case
    proof (cases pr)
      case (Inl e)
      with p Cons.prems have "res = Inl e" "s' = s1"
        by (simp_all add: first_failure_step del: first_failure.simps(2))
      with p Inl show ?thesis
        by (intro exI[of _ "[]"] exI[of _ r] exI[of _ rs] exI[of _ s]) (simp add: py_return_def)
    next
      case (Inr ok)
      with n have f: "ok = False" by simp
      with p Inr Cons.prems have "res = Inr (False, Some (diagnostic w r))" "s' = s1"
        by (simp_all add: first_failure_step del: first_failure.simps(2))
      with p Inr f show ?thesis
        by (intro exI[of _ "[]"] exI[of _ r] exI[of _ rs] exI[of _ s]) (simp add: py_return_def)
    qed
  qed
  show ?case
  proof (cases "pr = Inr True")
    case False
    then show ?thesis by (rule here)
  next
    case True
    with p Cons.prems have "first_failure w rs s1 = (res, s')"
      by (simp add: first_failure_step del: first_failure.simps(2))
    from Cons.IH[OF this Cons.prems(2)] obtain pre r' post s'' where
      d: "rs = pre @ r' # post" "first_failure w pre s1 = (Inr (True, None), s'')"
         "(case res of
             Inl e \<Rightarrow> probe w r' s'' = (Inl e, s')
           | Inr v \<Rightarrow> probe w r' s'' = (Inr False, s') \<and> v = (False, Some (diagnostic w r')))"
      by blast
    have "first_failure w (r # pre) s = (Inr (True, None), s'')"
      using p True d(2) by (simp add: first_failure_step del: first_failure.simps(2))
    with d show ?thesis
      by (intro exI[of _ "r # pre"] exI[of _ r'] exI[of _ post] exI[of _ s'']) simp
  qed
qed

lemma check_dependencies_examples:
  "fst (check_dependencies linux_box fresh) = Inr (True, None)"
  "fst (check_dependencies no_avcodec_box fresh) =
     Inr (False, Some ''avcodec library is needed to complete the build process'')"
  "map argv_of (calls (snd (check_dependencies no_avcodec_box fresh))) =
     [[''which'', ''pkg-config''], [''which'', ''ldconfig''], [''which'', ''python2.7-config''],
      [''find_library'', ''opencv''], [''pkg-config'', ''--exists'', ''opencv''],
      [''find_library'', ''avformat''],
      [''find_library'', ''avcodec''], [''pkg-config'', ''--exists'', ''avcodec'']]"
  "fst (check_dependencies no_cv2_box fresh) =
     Inr (False, Some ''opencv built with BUILD_opencv_python=ON required'')"
  "sys_path (snd (check_dependencies no_cv2_box fresh)) =
     [[], ''/usr/local/lib/python2.7/site-packages'', ''/usr/local/lib/python2.7/dist-packages'',
      ''/usr/lib/python2.7/site-packages'', ''/usr/lib/python2.7/dist-packages'',
      ''/usr/lib/python2.7'']"
  by code_simp+

text \<open>
  Claim C1, as stated: every check either passes or fails, and the first failure gives false
  with that requirement's message. On a machine on which \<^verbatim>\<open>which\<close> cannot be started the
  first tool check neither passes nor fails: \<^verbatim>\<open>OSError\<close> leaves \<^verbatim>\<open>check_dependencies\<close>,
  which returns neither false nor true.
\<close>

theorem check_dependencies_counterexample:
  "fst (check_dependencies bare_box fresh) = Inl OSError \<and>
   launch bare_box [''which'', ''pkg-config''] (os_environ fresh) = None"
  by code_simp

text \<open>
  Claim C1, amended. \<^verbatim>\<open>check_dependencies\<close> probes the requirements in the documented order
  (runtime major version; \<^verbatim>\<open>which\<close> for each tool; the library search and
  \<^verbatim>\<open>pkg-config --exists\<close> for each library; \<^verbatim>\<open>pkg-config --libs\<close> for each object file; the
  import of \<^verbatim>\<open>cv2\<close> on the prioritized module path) and ends at the first probe that does not
  return true: it is the function \<open>first_failure\<close> on that list, state and trace of calls
  included. With another major version than 2 it returns false with the version message and
  leaves the state, and so the trace, as it was. When it does not return true without message,
  the requirements before the last probed one all passed, the final state is the one that
  probe left, and either the probe returned false and the result is false with that
  requirement's message, or the probe raised and the same exception leaves
  \<^verbatim>\<open>check_dependencies\<close>. It returns true, always without message, exactly when every
  requirement passes.
\<close>

theorem check_dependencies_order:
  "check_dependencies w s = first_failure w (requirements w) s \<and>
   (py_ver_X w \<noteq> 2 \<longrightarrow>
      check_dependencies w s =
        (Inr (False, Some (''Python '' @ py_ver w @ '' is not version 2.x'')), s)) \<and>
   (check_dependencies w s = (res, s') \<and> res \<noteq> Inr (True, None) \<longrightarrow>
      (\<exists>pre r post s''. requirements w = pre @ r # post \<and>
         first_failure w pre s = (Inr (True, None), s'') \<and>
         (case res of
            Inl e \<Rightarrow> probe w r s'' = (Inl e, s')
          | Inr v \<Rightarrow> probe w r s'' = (Inr False, s') \<and> v = (False, Some (diagnostic w r))))) \<and>
   (passes w (requirements w) s \<longleftrightarrow> fst (check_dependencies w s) = Inr (True, None)) \<and>
   fst (check_dependencies w s) \<noteq> Inr (True, Some x)"
proof -
  have a: "check_dependencies w s = first_failure w (requirements w) s"
    by (rule check_dependencies_first_failure)
  have b: "py_ver_X w \<noteq> 2 \<longrightarrow>
      check_dependencies w s =
        (Inr (False, Some (''Python '' @ py_ver w @ '' is not version 2.x'')), s)"
    by (simp add: check_dependencies_def py_return_def)
  have c: "check_dependencies w s = (res, s') \<and> res \<noteq> Inr (True, None) \<longrightarrow>
      (\<exists>pre r post s''. requirements w = pre @ r # post \<and>
         first_failure w pre s = (Inr (True, None), s'') \<and>
         (case res of
            Inl e \<Rightarrow> probe w r s'' = (Inl e, s')
          | Inr v \<Rightarrow> probe w r s'' = (Inr False, s') \<and> v = (False, Some (diagnostic w r))))"
    unfolding a using first_failure_ends by blast
  have d: "passes w (requirements w) s \<longleftrightarrow> fst (check_dependencies w s) = Inr (True, None)"
    unfolding a by (rule passes_first_failure)
  have e: "fst (check_dependencies w s) \<noteq> Inr (True, Some x)"
    unfolding a by (rule first_failure_no_message)
  from a b c d e show ?thesis by blast
qed

theorem check_dependencies_order_witness:
  "py_ver_X py3_box \<noteq> 2 \<and>
   check_dependencies py3_box fresh = (Inr (False, Some ''Python 3.6 is not version 2.x''), fresh) \<and>
   (\<exists>pre r post s''. requirements py3_box = pre @ r # post \<and>
      first_failure py3_box pre fresh = (Inr (True, None), s'') \<and>
      probe py3_box r s'' = (Inr False, fresh) \<and>
      diagnostic py3_box r = ''Python 3.6 is not version 2.x'') \<and>
   fst (check_dependencies no_cv2_box fresh) =
     Inr (False, Some ''opencv built with BUILD_opencv_python=ON required'') \<and>
   (\<exists>pre r post s'' s'. requirements no_cv2_box = pre @ r # post \<and>
      first_failure no_cv2_box pre fresh = (Inr (True, None), s'') \<and>
      probe no_cv2_box r s'' = (Inr False, s') \<and>
      diagnostic no_cv2_box r = ''opencv built with BUILD_opencv_python=ON required'') \<and>
   fst (check_dependencies bare_box fresh) = Inl OSError \<and>
   (\<exists>pre r post s'' s'. requirements bare_box = pre @ r # post \<and>
      first_failure bare_box pre fresh = (Inr (True, None), s'') \<and>
      probe bare_box r s'' = (Inl OSError, s')) \<and>
   passes linux_box (requirements linux_box) fresh \<and>
   fst (check_dependencies linux_box fresh) = Inr (True, None)"
proof -
  have h: "py_ver_X py3_box \<noteq> 2" by code_simp
  have v: "''Python '' @ py_ver py3_box @ '' is not version 2.x'' = ''Python 3.6 is not version 2.x''"
    by code_simp
  from check_dependencies_order [of py3_box fresh] h
  have r3: "check_dependencies py3_box fresh =
      (Inr (False, Some ''Python 3.6 is not version 2.x''), fresh)"
    unfolding v by blast
  from check_dependencies_order
      [of py3_box fresh "Inr (False, Some ''Python 3.6 is not version 2.x'')" fresh,
       THEN conjunct2, THEN conjunct2, THEN conjunct1] r3
  have "\<exists>pre r post s''. requirements py3_box = pre @ r # post \<and>
      first_failure py3_box pre fresh = (Inr (True, None), s'') \<and>
      probe py3_box r s'' = (Inr False, fresh) \<and>
      (False, Some ''Python 3.6 is not version 2.x'') = (False, Some (diagnostic py3_box r))"
    by simp
  then have e3: "\<exists>pre r post s''. requirements py3_box = pre @ r # post \<and>
      first_failure py3_box pre fresh = (Inr (True, None), s'') \<and>
      probe py3_box r s'' = (Inr False, fresh) \<and>
      diagnostic py3_box r = ''Python 3.6 is not version 2.x''"
    by (elim exE conjE) (intro exI conjI, assumption+, simp)
  have fc: "fst (check_dependencies no_cv2_box fresh) =
      Inr (False, Some ''opencv built with BUILD_opencv_python=ON required'')"
    by code_simp
  then obtain sc where rc: "check_dependencies no_cv2_box fresh =
      (Inr (False, Some ''opencv built with BUILD_opencv_python=ON required''), sc)"
    by (cases "check_dependencies no_cv2_box fresh") simp
  from check_dependencies_order
      [of no_cv2_box fresh
          "Inr (False, Some ''opencv built with BUILD_opencv_python=ON required'')" sc,
       THEN conjunct2, THEN conjunct2, THEN conjunct1] rc
  have "\<exists>pre r post s''. requirements no_cv2_box = pre @ r # post \<and>
      first_failure no_cv2_box pre fresh = (Inr (True, None), s'') \<and>
      probe no_cv2_box r s'' = (Inr False, sc) \<and>
      (False, Some ''opencv built with BUILD_opencv_python=ON required'') =
        (False, Some (diagnostic no_cv2_box r))"
    by simp
  then have ec: "\<exists>pre r post s'' s'. requirements no_cv2_box = pre @ r # post \<and>
      first_failure no_cv2_box pre fresh = (Inr (True, None), s'') \<and>
      probe no_cv2_box r s'' = (Inr False, s') \<and>
      diagnostic no_cv2_box r = ''opencv built with BUILD_opencv_python=ON required''"
    by (elim exE conjE) (intro exI conjI, assumption+, simp)
  have fb: "fst (check_dependencies bare_box fresh) = Inl OSError" by code_simp
  then obtain sb where rb: "check_dependencies bare_box fresh = (Inl OSError, sb)"
    by (cases "check_dependencies bare_box fresh") simp
  from check_dependencies_order
      [of bare_box fresh "Inl OSError" sb, THEN conjunct2, THEN conjunct2, THEN conjunct1] rb
  have "\<exists>pre r post s''. requirements bare_box = pre @ r # post \<and>
      first_failure bare_box pre fresh = (Inr (True, None), s'') \<and>
      probe bare_box r s'' = (Inl OSError, sb)"
    by simp
  then have eb: "\<exists>pre r post s'' s'. requirements bare_box = pre @ r # post \<and>
      first_failure bare_box pre fresh = (Inr (True, None), s'') \<and>
      probe bare_box r s'' = (Inl OSError, s')"
    by blast
  have p: "fst (check_dependencies linux_box fresh) = Inr (True, None)" by code_simp
  with check_dependencies_order [of linux_box fresh]
  have q: "passes linux_box (requirements linux_box) fresh" by blast
  from h r3 e3 fc ec fb eb p q show ?thesis by blast
qed

section \<open>The collection-merging helper\<close>

lemma set_add_hashable:
  "hashable x \<Longrightarrow>
   \<exists>r. set_add x acc = Inr r \<and> set r = insert x (set acc) \<and> (distinct acc \<longrightarrow> distinct r)"
  by (auto simp: set_add_def)

lemma add_all_hashable:
  "list_all hashable ys \<Longrightarrow>
   \<exists>r. add_all ys acc = Inr r \<and> set r = set acc \<union> set ys \<and> (distinct acc \<longrightarrow> distinct r)"
proof (induction ys arbitrary: acc)
  case Nil
  then show ?case by simp
next
  case (Cons y ys)
  from Cons.prems have "hashable y" by simp
  from set_add_hashable[OF this, of acc] obtain r where
    r: "set_add y acc = Inr r" "set r = insert y (set acc)" "distinct acc \<longrightarrow> distinct r"
    by blast
  from Cons.prems have "list_all hashable ys" by simp
  from Cons.IH[OF this, of r] obtain r' where
    r': "add_all ys r = Inr r'" "set r' = set r \<union> set ys" "distinct r \<longrightarrow> distinct r'"
    by blast
  from r r' show ?case by auto
qed

lemma build_lst_loop_hashable:
  "\<forall>ys. Lst ys \<in> set items \<longrightarrow> list_all hashable ys \<Longrightarrow>
   \<exists>r. build_lst_loop items acc = Inr r \<and>
       set r = set acc \<union> (\<Union>x \<in> set items. contribution x) \<and>
       (distinct acc \<longrightarrow> distinct r)"
proof (induction items arbitrary: acc)
  case Nil
  then show ?case by simp
next
  case (Cons x xs)
  have rest: "\<forall>ys. Lst ys \<in> set xs \<longrightarrow> list_all hashable ys"
    using Cons.prems by simp
  have step: "\<exists>r. (case x of
        Str v \<Rightarrow> set_add x acc
      | Lst ys \<Rightarrow> add_all ys acc
      | _ \<Rightarrow> Inr acc) = Inr r \<and> set r = set acc \<union> contribution x \<and>
      (distinct acc \<longrightarrow> distinct r)"
  proof (cases x)
    case (Str v)
    with set_add_hashable[of x acc] show ?thesis by auto
  next
    case (Lst ys)
    with Cons.prems have "list_all hashable ys" by simp
    from add_all_hashable[OF this, of acc] Lst show ?thesis by auto
  qed simp_all
  then obtain r where r: "(case x of
        Str v \<Rightarrow> set_add x acc
      | Lst ys \<Rightarrow> add_all ys acc
      | _ \<Rightarrow> Inr acc) = Inr r" "set r = set acc \<union> contribution x"
      "distinct acc \<longrightarrow> distinct r"
    by blast
  from Cons.IH[OF rest, of r] obtain r' where
    r': "build_lst_loop xs r = Inr r'"
        "set r' = set r \<union> (\<Union>x \<in> set xs. contribution x)" "distinct r \<longrightarrow> distinct r'"
    by blast
  have "build_lst_loop (x # xs) acc = build_lst_loop xs r"
    using r(1) by (cases x) simp_all
  with r r' show ?case by auto
qed

lemma contribution_union:
  "(\<Union>x \<in> set items. contribution x) =
     {Str x |x. Str x \<in> set items} \<union> {y. \<exists>ys. Lst ys \<in> set items \<and> y \<in> set ys}"
proof (rule set_eqI)
  fix e
  show "e \<in> (\<Union>x \<in> set items. contribution x) \<longleftrightarrow>
        e \<in> {Str x |x. Str x \<in> set items} \<union> {y. \<exists>ys. Lst ys \<in> set items \<and> y \<in> set ys}"
  proof
    assume "e \<in> (\<Union>x \<in> set items. contribution x)"
    then obtain x where x: "x \<in> set items" "e \<in> contribution x" by blast
    show "e \<in> {Str x |x. Str x \<in> set items} \<union> {y. \<exists>ys. Lst ys \<in> set items \<and> y \<in> set ys}"
      by (insert x, cases x) auto
  next
    assume "e \<in> {Str x |x. Str x \<in> set items} \<union> {y. \<exists>ys. Lst ys \<in> set items \<and> y \<in> set ys}"
    then show "e \<in> (\<Union>x \<in> set items. contribution x)"
      by (auto intro: bexI[where x="Str _"] bexI[where x="Lst _"])
  qed
qed

lemma build_lst_loop_append:
  "build_lst_loop (xs @ ys) acc =
     (case build_lst_loop xs acc of Inl e \<Rightarrow> Inl e | Inr r \<Rightarrow> build_lst_loop ys r)"
  by (induction xs arbitrary: acc) (auto split: obj.splits sum.splits)

lemma build_lst_skip:
  "x = NoneObj \<or> x = Other n \<Longrightarrow>
   build_lst order (items @ x # others) = build_lst order (items @ others)"
  by (auto simp: build_lst_def build_lst_loop_append split: sum.splits)

lemma build_lst_result:
  assumes perm: "\<forall>xs. set (order xs) = set xs \<and> length (order xs) = length xs"
    and hash: "\<forall>ys. Lst ys \<in> set items \<longrightarrow> list_all hashable ys"
  shows "\<exists>r. build_lst order items = Inr r \<and>
           set r = {Str x |x. Str x \<in> set items} \<union>
                   {y. \<exists>ys. Lst ys \<in> set items \<and> y \<in> set ys} \<and>
           distinct r"
proof -
  from build_lst_loop_hashable[of items "[]", OF hash] obtain r where
    r: "build_lst_loop items [] = Inr r" "set r = (\<Union>x \<in> set items. contribution x)" "distinct r"
    by auto
  have "card (set (order r)) = length (order r)"
    using perm r(3) by (simp add: distinct_card)
  then have "distinct (order r)" by (rule card_distinct)
  with r perm show ?thesis
    by (simp add: build_lst_def contribution_union)
qed

lemma strings_hashable:
  "\<forall>ys. Lst ys \<in> set [str_list a, opt_list b, opt_str c] \<longrightarrow> list_all hashable ys"
  by (cases b; cases c) (auto simp: str_list_def opt_list_def opt_str_def list_all_iff)

lemma strings_hashable2:
  "\<forall>ys. Lst ys \<in> set [str_list a, opt_str c] \<longrightarrow> list_all hashable ys"
  by (cases c) (auto simp: str_list_def opt_str_def list_all_iff)

lemma no_none_in_strings:
  "NoneObj \<notin> {Str x |x. Str x \<in> set [str_list a, opt_list b, opt_str c]} \<union>
      {y. \<exists>ys. Lst ys \<in> set [str_list a, opt_list b, opt_str c] \<and> y \<in> set ys}"
  by (cases b; cases c) (auto simp: str_list_def opt_list_def opt_str_def)

lemma no_none_in_strings2:
  "NoneObj \<notin> {Str x |x. Str x \<in> set [str_list a, opt_str c]} \<union>
      {y. \<exists>ys. Lst ys \<in> set [str_list a, opt_str c] \<and> y \<in> set ys}"
  by (cases c) (auto simp: str_list_def opt_str_def)

text \<open>
  Claim C10, as stated: for all arguments the result is a list of exactly the distinct strings
  of the arguments, so it never contains \<^verbatim>\<open>None\<close>. The elements of a list argument are
  added whatever they are: a \<^verbatim>\<open>None\<close> inside a list argument is in the result, and a list
  inside a list argument raises \<^verbatim>\<open>TypeError\<close>, in whatever order the set is iterated.
\<close>

theorem build_lst_counterexample:
  "build_lst (\<lambda>xs. xs) [Lst [NoneObj]] = Inr [NoneObj] \<and>
   build_lst rev [Lst [NoneObj]] = Inr [NoneObj] \<and>
   build_lst (\<lambda>xs. xs) [Lst [Lst []]] = Inl TypeError \<and>
   build_lst rev [Lst [Lst []]] = Inl TypeError"
  by code_simp

text \<open>
  Claim C10, amended. Whatever the order in which the interpreter iterates over a set, and
  for all arguments whose list arguments hold only hashable objects, \<^verbatim>\<open>build_lst\<close> returns
  a list whose elements are exactly its \<^verbatim>\<open>str\<close> arguments and the elements of its list
  arguments, each once; an argument of another type, \<^verbatim>\<open>None\<close> in particular, adds nothing.
  So the \<^verbatim>\<open>libraries\<close> and \<^verbatim>\<open>library_dirs\<close> of the extension \<^verbatim>\<open>py_motion\<close>, whose list
  arguments hold strings and to which \<^verbatim>\<open>cl_lib\<close> and \<^verbatim>\<open>cl_ldflag\<close> are passed as
  \<^verbatim>\<open>None\<close> when they were not resolved, contain neither \<^verbatim>\<open>None\<close> nor a duplicate.
\<close>

theorem build_lst_elements:
  assumes perm: "\<forall>xs. set (order xs) = set xs \<and> length (order xs) = length xs"
    and hash: "\<forall>ys. Lst ys \<in> set items \<longrightarrow> list_all hashable ys"
  shows "(\<exists>r. build_lst order items = Inr r \<and>
            set r = {Str x |x. Str x \<in> set items} \<union>
                    {y. \<exists>ys. Lst ys \<in> set items \<and> y \<in> set ys} \<and>
            distinct r) \<and>
         build_lst order (items @ NoneObj # others) = build_lst order (items @ others) \<and>
         build_lst order (items @ Other n # others) = build_lst order (items @ others) \<and>
         (\<exists>r. py_motion_libraries order py_libs cl_lib = Inr r \<and>
            NoneObj \<notin> set r \<and> distinct r) \<and>
         (\<exists>r. py_motion_library_dirs order ldflags cl_ldflag = Inr r \<and>
            NoneObj \<notin> set r \<and> distinct r)"
proof -
  note a = build_lst_result[OF perm hash]
  have b: "build_lst order (items @ NoneObj # others) = build_lst order (items @ others)"
    by (rule build_lst_skip) simp
  have c: "build_lst order (items @ Other n # others) = build_lst order (items @ others)"
    by (rule build_lst_skip) simp
  have d: "\<exists>r. py_motion_libraries order py_libs cl_lib = Inr r \<and> NoneObj \<notin> set r \<and> distinct r"
    unfolding py_motion_libraries_def
    using build_lst_result[OF perm strings_hashable,
      of "[''opencv_core'', ''opencv_ocl'', ''opencv_imgproc'']" py_libs cl_lib]
      no_none_in_strings[of "[''opencv_core'', ''opencv_ocl'', ''opencv_imgproc'']" py_libs cl_lib]
    by auto
  have e: "\<exists>r. py_motion_library_dirs order ldflags cl_ldflag = Inr r \<and> NoneObj \<notin> set r \<and> distinct r"
    unfolding py_motion_library_dirs_def
    using build_lst_result[OF perm strings_hashable2, of ldflags cl_ldflag]
      no_none_in_strings2[of ldflags cl_ldflag]
    by auto
  from a b c d e show ?thesis by blast
qed

theorem build_lst_elements_witness:
  "build_lst rev [Str ''/b'', str_list [''/usr/lib'', ''/usr/local/lib'', ''/usr/lib''], NoneObj] =
     Inr [Str ''/usr/local/lib'', Str ''/usr/lib'', Str ''/b''] \<and>
   (\<exists>r. build_lst rev [Str ''/b'', str_list [''/usr/lib'', ''/usr/local/lib'', ''/usr/lib''], NoneObj]
          = Inr r \<and>
      set r = {Str ''/b'', Str ''/usr/lib'', Str ''/usr/local/lib''} \<and> distinct r) \<and>
   (\<exists>r. py_motion_libraries rev None None = Inr r \<and> NoneObj \<notin> set r \<and> distinct r) \<and>
   py_motion_libraries rev None None =
     Inr [Str ''opencv_imgproc'', Str ''opencv_ocl'', Str ''opencv_core'']"
proof -
  have p: "\<forall>xs::obj list. set (rev xs) = set xs \<and> length (rev xs) = length xs" by simp
  have h: "\<forall>ys. Lst ys \<in> set [Str ''/b'', str_list [''/usr/lib'', ''/usr/local/lib'', ''/usr/lib''], NoneObj]
      \<longrightarrow> list_all hashable ys"
    by (auto simp: str_list_def)
  have v: "build_lst rev [Str ''/b'', str_list [''/usr/lib'', ''/usr/local/lib'', ''/usr/lib''], NoneObj] =
     Inr [Str ''/usr/local/lib'', Str ''/usr/lib'', Str ''/b'']"
    by code_simp
  have m: "py_motion_libraries rev None None =
     Inr [Str ''opencv_imgproc'', Str ''opencv_ocl'', Str ''opencv_core'']"
    by code_simp
  note t = build_lst_elements [of rev
      "[Str ''/b'', str_list [''/usr/lib'', ''/usr/local/lib'', ''/usr/lib''], NoneObj]"
      "[]" 0 None None "[]" None, OF p h]
  from t have d: "\<exists>r. py_motion_libraries rev None None = Inr r \<and> NoneObj \<notin> set r \<and> distinct r"
    by blast
  from t have "\<exists>r. build_lst rev [Str ''/b'', str_list [''/usr/lib'', ''/usr/local/lib'', ''/usr/lib''], NoneObj]
          = Inr r \<and>
      set r = {Str x |x. Str x \<in> set [Str ''/b'', str_list [''/usr/lib'', ''/usr/local/lib'', ''/usr/lib''], NoneObj]} \<union>
              {y. \<exists>ys. Lst ys \<in> set [Str ''/b'', str_list [''/usr/lib'', ''/usr/local/lib'', ''/usr/lib''], NoneObj] \<and> y \<in> set ys} \<and>
      distinct r"
    by blast
  then have e: "\<exists>r. build_lst rev [Str ''/b'', str_list [''/usr/lib'', ''/usr/local/lib'', ''/usr/lib''], NoneObj]
          = Inr r \<and>
      set r = {Str ''/b'', Str ''/usr/lib'', Str ''/usr/local/lib''} \<and> distinct r"
    unfolding v by auto
  from v e d m show ?thesis by blast
qed

end
